theory Spec2Isabelle
  imports Main "HOL-Library.AList"
begin

section \<open>Values held in documents\<close>

text \<open>
  The service of \<^verbatim>\<open>main.py\<close> moves Python dictionaries between HTTP handlers and a
  document store. A string is a list of characters, each character read as a code point
  below 256. A \<^verbatim>\<open>bson.ObjectId\<close> is represented by its canonical text, the 24 lower-case
  hexadecimal digits that \<^verbatim>\<open>str\<close> prints. A \<^verbatim>\<open>datetime\<close> is represented by its
  \<^verbatim>\<open>isoformat()\<close> text, a float by its decimal \<^verbatim>\<open>repr\<close>, and a list (the \<^verbatim>\<open>tags\<close> of a
  product) is a list of strings.
\<close>

datatype oid = ObjectId string

datatype val =
    VNone
  | VBool bool
  | VStr string
  | VFloat string
  | VOid oid
  | VDatetime string
  | VList "string list"

datatype py_error =
    KeyError string
  | TypeError
  | InvalidId
  | DuplicateKeyError
  | ValidationError

type_synonym doc = "(string \<times> val) list"

subsection \<open>\<^verbatim>\<open>str\<close> and \<^verbatim>\<open>repr\<close>\<close>

definition hex_digit :: "nat \<Rightarrow> char" where
  "hex_digit n = ''0123456789abcdef'' ! (n mod 16)"

definition printable :: "char \<Rightarrow> bool" where
  "printable c =
     (let n = (of_char c :: nat)
      in (32 \<le> n \<and> n < 127) \<or> (161 \<le> n \<and> n \<noteq> 173))"

definition repr_char :: "char \<Rightarrow> char \<Rightarrow> string" where
  "repr_char q c =
     (if c = q \<or> c = CHR 0x5C then [CHR 0x5C, c]
      else if c = CHR 0x09 then [CHR 0x5C, CHR ''t'']
      else if c = CHR 0x0A then [CHR 0x5C, CHR ''n'']
      else if c = CHR 0x0D then [CHR 0x5C, CHR ''r'']
      else if printable c then [c]
      else [CHR 0x5C, CHR ''x'',
            hex_digit ((of_char c :: nat) div 16), hex_digit ((of_char c :: nat) mod 16)])"

definition py_repr_str :: "string \<Rightarrow> string" where
  "py_repr_str s =
     (let q = (if CHR 0x27 \<in> set s \<and> CHR 0x22 \<notin> set s then CHR 0x22 else CHR 0x27)
      in [q] @ concat (map (repr_char q) s) @ [q])"

fun join :: "string \<Rightarrow> string list \<Rightarrow> string" where
  "join sep [] = []"
| "join sep [x] = x"
| "join sep (x # y # ys) = x @ sep @ join sep (y # ys)"

fun py_str :: "val \<Rightarrow> string" where
  "py_str VNone = ''None''"
| "py_str (VBool b) = (if b then ''True'' else ''False'')"
| "py_str (VStr s) = s"
| "py_str (VFloat f) = f"
| "py_str (VOid (ObjectId h)) = h"
| "py_str (VDatetime isotext) = map (\<lambda>c. if c = CHR ''T'' then CHR 0x20 else c) isotext"
| "py_str (VList xs) = ''['' @ join '', '' (map py_repr_str xs) @ '']''"

fun isinstance_ObjectId :: "val \<Rightarrow> bool" where
  "isinstance_ObjectId (VOid _) = True"
| "isinstance_ObjectId _ = False"

subsection \<open>Dictionary operations\<close>

text \<open>
  A dictionary is an association list in insertion order. Assigning to a key that is
  present keeps its place, assigning to a new key appends it, as Python does. A Python
  dictionary holds each key once: \<open>is_dict\<close>.
\<close>

definition is_dict :: "doc \<Rightarrow> bool" where
  "is_dict d = distinct (map fst d)"

definition contains :: "string \<Rightarrow> doc \<Rightarrow> bool" where
  "contains k d = (map_of d k \<noteq> None)"

definition getitem :: "doc \<Rightarrow> string \<Rightarrow> py_error + val" where
  "getitem d k = (case map_of d k of None \<Rightarrow> Inl (KeyError k) | Some v \<Rightarrow> Inr v)"

definition dict_get :: "('k \<times> val) list \<Rightarrow> 'k \<Rightarrow> val" where
  "dict_get d k = (case map_of d k of None \<Rightarrow> VNone | Some v \<Rightarrow> v)"

definition setitem :: "string \<Rightarrow> val \<Rightarrow> doc \<Rightarrow> doc" where
  "setitem k v d = AList.update k v d"

definition pop :: "string \<Rightarrow> doc \<Rightarrow> py_error + (val \<times> doc)" where
  "pop k d =
     (case map_of d k of
        None \<Rightarrow> Inl (KeyError k)
      | Some v \<Rightarrow> Inr (v, AList.delete k d))"

section \<open>Identifier normalization: \<^verbatim>\<open>to_str_id\<close>\<close>

text \<open>
  \<^verbatim>\<open>
  def to_str_id(doc: dict) -> dict:
      if not doc:
          return doc
      d = doc.copy()
      if "_id" in d:
          d["id"] = str(d.pop("_id"))
      for k, v in list(d.items()):
          if isinstance(v, ObjectId):
              d[k] = str(v)
      return d
  \<close>
  The loop runs over a snapshot of the items and assigns into \<open>d\<close>.
\<close>

definition stringify_item :: "string \<times> val \<Rightarrow> doc \<Rightarrow> doc" where
  "stringify_item kv d =
     (case kv of (k, v) \<Rightarrow>
        if isinstance_ObjectId v then setitem k (VStr (py_str v)) d else d)"

definition rename_id :: "doc \<Rightarrow> py_error + doc" where
  "rename_id d =
     (if contains ''_id'' d
      then (case pop ''_id'' d of
              Inl e \<Rightarrow> Inl e
            | Inr (v, d') \<Rightarrow> Inr (setitem ''id'' (VStr (py_str v)) d'))
      else Inr d)"

definition to_str_id :: "doc \<Rightarrow> py_error + doc" where
  "to_str_id doc =
     (if doc = [] then Inr doc
      else (case rename_id doc of
              Inl e \<Rightarrow> Inl e
            | Inr d \<Rightarrow> Inr (fold stringify_item d d)))"

subsection \<open>The same function over a heap of dictionaries\<close>

text \<open>
  To speak about mutation, dictionaries live in a heap: a list of cells, an address being
  an index. \<^verbatim>\<open>doc.copy()\<close> allocates a new cell holding the same items; \<^verbatim>\<open>pop\<close> and
  item assignment overwrite the cell they are applied to.
\<close>

type_synonym heap = "doc list"

definition dict_copy :: "heap \<Rightarrow> nat \<Rightarrow> heap \<times> nat" where
  "dict_copy h a = (h @ [h ! a], length h)"

definition heap_pop :: "heap \<Rightarrow> nat \<Rightarrow> string \<Rightarrow> py_error + (val \<times> heap)" where
  "heap_pop h a k =
     (case pop k (h ! a) of
        Inl e \<Rightarrow> Inl e
      | Inr (v, d') \<Rightarrow> Inr (v, h[a := d']))"

definition heap_setitem :: "heap \<Rightarrow> nat \<Rightarrow> string \<Rightarrow> val \<Rightarrow> heap" where
  "heap_setitem h a k v = h[a := setitem k v (h ! a)]"

definition heap_stringify_item :: "nat \<Rightarrow> string \<times> val \<Rightarrow> heap \<Rightarrow> heap" where
  "heap_stringify_item a kv h =
     (case kv of (k, v) \<Rightarrow>
        if isinstance_ObjectId v then heap_setitem h a k (VStr (py_str v)) else h)"

definition heap_rename_id :: "heap \<Rightarrow> nat \<Rightarrow> py_error + heap" where
  "heap_rename_id h d =
     (if contains ''_id'' (h ! d)
      then (case heap_pop h d ''_id'' of
              Inl e \<Rightarrow> Inl e
            | Inr (v, h') \<Rightarrow> Inr (heap_setitem h' d ''id'' (VStr (py_str v))))
      else Inr h)"

definition to_str_id_heap :: "heap \<Rightarrow> nat \<Rightarrow> py_error + (heap \<times> nat)" where
  "to_str_id_heap h doc =
     (if h ! doc = [] then Inr (h, doc)
      else (case dict_copy h doc of (h1, d) \<Rightarrow>
              (case heap_rename_id h1 d of
                 Inl e \<Rightarrow> Inl e
               | Inr h2 \<Rightarrow> Inr (fold (heap_stringify_item d) (h2 ! d) h2, d))))"

section \<open>The document store\<close>

text \<open>
  Modelled from the spec: the module \<^verbatim>\<open>database\<close> (the handle \<^verbatim>\<open>db\<close>) is imported by
  \<^verbatim>\<open>main.py\<close> and is not among the sources. The spec describes a connection handle that
  is null when the store is unavailable and that exposes named collections with count,
  find-all, find-by-filter, find-by-identifier, insert-one, insert-many and
  update-one-with-field-set. The handle is a \<open>store option\<close>; a store maps a collection
  name to its documents in insertion order (\<^verbatim>\<open>db["user"]\<close> is \<open>s ''user''\<close>).

  A filter is a dictionary of required field values, \<^verbatim>\<open>{}\<close> matching every document.
  The store gives every document an \<^verbatim>\<open>_id\<close>, written first, generating an
  \<^verbatim>\<open>ObjectId\<close> when the inserted dictionary has none, and refuses a second document
  with the same \<^verbatim>\<open>_id\<close>. The identifiers the driver generates are an input of the
  model: \<open>new_oid k\<close> is the one generated for the \<open>k\<close>-th document a routine
  inserts. Likewise \<open>now k\<close> is the \<^verbatim>\<open>isoformat()\<close> text of the clock at the
  \<open>k\<close>-th call of \<^verbatim>\<open>datetime.now\<close> in the routine's source.
\<close>

type_synonym collection = "doc list"

type_synonym store = "string \<Rightarrow> collection"

type_synonym query = "(string \<times> val) list"

definition matches :: "query \<Rightarrow> doc \<Rightarrow> bool" where
  "matches q d = list_all (\<lambda>kv. map_of d (fst kv) = Some (snd kv)) q"

definition find_docs :: "collection \<Rightarrow> query \<Rightarrow> doc list" where
  "find_docs c q = filter (matches q) c"

definition count_documents :: "collection \<Rightarrow> query \<Rightarrow> nat" where
  "count_documents c q = length (find_docs c q)"

definition find_one :: "collection \<Rightarrow> query \<Rightarrow> doc option" where
  "find_one c q = (case find_docs c q of [] \<Rightarrow> None | d # _ \<Rightarrow> Some d)"

definition apply_set :: "(string \<times> val) list \<Rightarrow> doc \<Rightarrow> doc" where
  "apply_set upd d = fold (\<lambda>kv. AList.update (fst kv) (snd kv)) upd d"

fun update_one :: "collection \<Rightarrow> query \<Rightarrow> (string \<times> val) list \<Rightarrow> collection" where
  "update_one [] q upd = []"
| "update_one (d # ds) q upd =
     (if matches q d then apply_set upd d # ds else d # update_one ds q upd)"

definition with_id :: "oid \<Rightarrow> doc \<Rightarrow> doc" where
  "with_id i d = (if contains ''_id'' d then d else (''_id'', VOid i) # d)"

definition ids_of :: "collection \<Rightarrow> val option list" where
  "ids_of c = map (\<lambda>d. map_of d ''_id'') c"

definition insert_one :: "collection \<Rightarrow> oid \<Rightarrow> doc \<Rightarrow> py_error + collection" where
  "insert_one c i d =
     (let d' = with_id i d
      in if map_of d' ''_id'' \<in> set (ids_of c) then Inl DuplicateKeyError
         else Inr (c @ [d']))"

text \<open>
  \<^verbatim>\<open>insert_many\<close> inserts in order and stops at the first document that is refused; the
  documents before it stay inserted.
\<close>

fun insert_many ::
  "collection \<Rightarrow> (nat \<Rightarrow> oid) \<Rightarrow> nat \<Rightarrow> doc list \<Rightarrow> collection \<times> py_error option" where
  "insert_many c new_oid n [] = (c, None)"
| "insert_many c new_oid n (d # ds) =
     (case insert_one c (new_oid n) d of
        Inl e \<Rightarrow> (c, Some e)
      | Inr c' \<Rightarrow> insert_many c' new_oid (Suc n) ds)"

text \<open>
  What the store guarantees of a collection: every document is a dictionary with an
  \<^verbatim>\<open>_id\<close>, and no two documents share one.
\<close>

definition wf_collection :: "collection \<Rightarrow> bool" where
  "wf_collection c =
     (list_all (\<lambda>d. is_dict d \<and> contains ''_id'' d) c \<and> distinct (ids_of c))"

subsection \<open>\<^verbatim>\<open>bson.ObjectId\<close>: parsing a client-supplied string\<close>

text \<open>
  \<^verbatim>\<open>ObjectId(s)\<close> accepts 24 hexadecimal digits in either case and raises
  \<^verbatim>\<open>InvalidId\<close> otherwise; \<^verbatim>\<open>ObjectId.is_valid(s)\<close> is false on the empty string and
  otherwise tries the constructor.
\<close>

definition is_hex :: "char \<Rightarrow> bool" where
  "is_hex c = (c \<in> set ''0123456789abcdefABCDEF'')"

definition lower_hex :: "char \<Rightarrow> char" where
  "lower_hex c =
     (if c = CHR ''A'' then CHR ''a'' else if c = CHR ''B'' then CHR ''b''
      else if c = CHR ''C'' then CHR ''c'' else if c = CHR ''D'' then CHR ''d''
      else if c = CHR ''E'' then CHR ''e'' else if c = CHR ''F'' then CHR ''f''
      else c)"

definition ObjectId_parse :: "string \<Rightarrow> py_error + oid" where
  "ObjectId_parse s =
     (if length s = 24 \<and> list_all is_hex s then Inr (ObjectId (map lower_hex s))
      else Inl InvalidId)"

definition is_valid :: "string \<Rightarrow> bool" where
  "is_valid s =
     (if s = [] then False
      else (case ObjectId_parse s of Inl e \<Rightarrow> False | Inr i \<Rightarrow> True))"

section \<open>Handlers\<close>

text \<open>
  A handler ends with its response or with a failure: an \<^verbatim>\<open>HTTPException\<close> it raised,
  or an exception it did not catch, which the framework answers with status 500.
\<close>

datatype failure = HTTPException nat string | Unhandled py_error

fun status_code :: "failure \<Rightarrow> nat" where
  "status_code (HTTPException code detail) = code"
| "status_code (Unhandled e) = 500"

definition bind_err :: "'e + 'a \<Rightarrow> ('a \<Rightarrow> 'e + 'b) \<Rightarrow> 'e + 'b" where
  "bind_err m f = (case m of Inl e \<Rightarrow> Inl e | Inr x \<Rightarrow> f x)"

text \<open>A list comprehension whose element expression may raise.\<close>

fun map_err :: "('a \<Rightarrow> 'e + 'b) \<Rightarrow> 'a list \<Rightarrow> 'e + 'b list" where
  "map_err f [] = Inr []"
| "map_err f (x # xs) =
     (case f x of
        Inl e \<Rightarrow> Inl e
      | Inr y \<Rightarrow> (case map_err f xs of Inl e \<Rightarrow> Inl e | Inr ys \<Rightarrow> Inr (y # ys)))"

text \<open>
  \<^verbatim>\<open>str.strip()\<close> removes the white space of \<^verbatim>\<open>str.isspace\<close> at both ends; below
  code point 256 these are the twelve characters listed.
\<close>

definition isspace :: "char \<Rightarrow> bool" where
  "isspace c =
     (c \<in> set [CHR 0x09, CHR 0x0A, CHR 0x0B, CHR 0x0C, CHR 0x0D, CHR 0x1C, CHR 0x1D,
               CHR 0x1E, CHR 0x1F, CHR 0x20, CHR 0x85, CHR 0xA0])"

definition strip :: "string \<Rightarrow> string" where
  "strip s = rev (dropWhile isspace (rev (dropWhile isspace s)))"

subsection \<open>Request and response schemas\<close>

record SendOtpRequest =
  phone :: string

record VerifyOtpRequest =
  phone :: string
  otp :: string

record VerifyOtpResponse =
  success :: bool
  user :: "doc option"

record RestaurantOut =
  ro_id :: string
  ro_name :: string
  ro_description :: "string option"
  ro_address :: "string option"
  ro_image :: "string option"
  ro_rating :: "string option"
  ro_cuisine :: "string option"

record ProductOut =
  po_id :: string
  po_title :: string
  po_description :: "string option"
  po_price :: string
  po_image :: "string option"
  po_restaurant_id :: "string option"
  po_tags :: "string list option"

text \<open>
  Field validation of the response models: a required field must be present with a value
  of its type, an optional one may be absent or \<^verbatim>\<open>None\<close>; fields the model does not
  declare are ignored.
\<close>

definition req_str :: "doc \<Rightarrow> string \<Rightarrow> py_error + string" where
  "req_str d k = (case map_of d k of Some (VStr s) \<Rightarrow> Inr s | _ \<Rightarrow> Inl ValidationError)"

definition opt_str :: "doc \<Rightarrow> string \<Rightarrow> py_error + string option" where
  "opt_str d k =
     (case map_of d k of
        None \<Rightarrow> Inr None
      | Some VNone \<Rightarrow> Inr None
      | Some (VStr s) \<Rightarrow> Inr (Some s)
      | Some _ \<Rightarrow> Inl ValidationError)"

definition req_float :: "doc \<Rightarrow> string \<Rightarrow> py_error + string" where
  "req_float d k = (case map_of d k of Some (VFloat f) \<Rightarrow> Inr f | _ \<Rightarrow> Inl ValidationError)"

definition opt_float :: "doc \<Rightarrow> string \<Rightarrow> py_error + string option" where
  "opt_float d k =
     (case map_of d k of
        None \<Rightarrow> Inr None
      | Some VNone \<Rightarrow> Inr None
      | Some (VFloat f) \<Rightarrow> Inr (Some f)
      | Some _ \<Rightarrow> Inl ValidationError)"

definition opt_tags :: "doc \<Rightarrow> string \<Rightarrow> py_error + string list option" where
  "opt_tags d k =
     (case map_of d k of
        None \<Rightarrow> Inr (Some [])
      | Some VNone \<Rightarrow> Inr None
      | Some (VList xs) \<Rightarrow> Inr (Some xs)
      | Some _ \<Rightarrow> Inl ValidationError)"

definition RestaurantOut_of :: "doc \<Rightarrow> py_error + RestaurantOut" where
  "RestaurantOut_of d =
     bind_err (req_str d ''id'') (\<lambda>i.
     bind_err (req_str d ''name'') (\<lambda>n.
     bind_err (opt_str d ''description'') (\<lambda>ds.
     bind_err (opt_str d ''address'') (\<lambda>a.
     bind_err (opt_str d ''image'') (\<lambda>im.
     bind_err (opt_float d ''rating'') (\<lambda>r.
     bind_err (opt_str d ''cuisine'') (\<lambda>c.
       Inr \<lparr>ro_id = i, ro_name = n, ro_description = ds, ro_address = a,
            ro_image = im, ro_rating = r, ro_cuisine = c\<rparr>)))))))"

definition ProductOut_of :: "doc \<Rightarrow> py_error + ProductOut" where
  "ProductOut_of d =
     bind_err (req_str d ''id'') (\<lambda>i.
     bind_err (req_str d ''title'') (\<lambda>t.
     bind_err (opt_str d ''description'') (\<lambda>ds.
     bind_err (req_float d ''price'') (\<lambda>p.
     bind_err (opt_str d ''image'') (\<lambda>im.
     bind_err (opt_str d ''restaurant_id'') (\<lambda>r.
     bind_err (opt_tags d ''tags'') (\<lambda>ts.
       Inr \<lparr>po_id = i, po_title = t, po_description = ds, po_price = p,
            po_image = im, po_restaurant_id = r, po_tags = ts\<rparr>)))))))"

subsection \<open>Startup seed: \<^verbatim>\<open>seed_data\<close>\<close>

definition seed_restaurants :: "(nat \<Rightarrow> string) \<Rightarrow> doc list" where
  "seed_restaurants now =
     [[(''name'', VStr ''Spice Garden''),
       (''description'', VStr ''Authentic Indian cuisine with a modern twist''),
       (''address'', VStr ''123 Curry Ave''),
       (''image'', VStr ''https://images.unsplash.com/photo-1544025162-d76694265947?q=80&w=1600&auto=format&fit=crop''),
       (''rating'', VFloat ''4.6''),
       (''cuisine'', VStr ''Indian''),
       (''created_at'', VDatetime (now 0)),
       (''updated_at'', VDatetime (now 1))],
      [(''name'', VStr ''Pasta Piazza''),
       (''description'', VStr ''Fresh handmade pastas and rustic sauces''),
       (''address'', VStr ''45 Roma Street''),
       (''image'', VStr ''https://images.unsplash.com/photo-1523986371872-9d3ba2e2f642?q=80&w=1600&auto=format&fit=crop''),
       (''rating'', VFloat ''4.7''),
       (''cuisine'', VStr ''Italian''),
       (''created_at'', VDatetime (now 2)),
       (''updated_at'', VDatetime (now 3))]]"

text \<open>
  \<^verbatim>\<open>rest_ids = {r["name"]: r["_id"] for r in rest_docs}\<close>: a missing field raises
  \<^verbatim>\<open>KeyError\<close>, a list as key is unhashable, and a later restaurant of the same name
  replaces the earlier entry.
\<close>

fun rest_ids_of :: "doc list \<Rightarrow> (val \<times> val) list \<Rightarrow> py_error + (val \<times> val) list" where
  "rest_ids_of [] acc = Inr acc"
| "rest_ids_of (r # rs) acc =
     (case getitem r ''name'' of
        Inl e \<Rightarrow> Inl e
      | Inr n \<Rightarrow>
          (case getitem r ''_id'' of
             Inl e \<Rightarrow> Inl e
           | Inr i \<Rightarrow>
               (case n of
                  VList xs \<Rightarrow> Inl TypeError
                | _ \<Rightarrow> rest_ids_of rs (AList.update n i acc))))"

definition seed_products :: "(nat \<Rightarrow> string) \<Rightarrow> (val \<times> val) list \<Rightarrow> doc list" where
  "seed_products now rest_ids =
     [[(''title'', VStr ''Butter Chicken''),
       (''description'', VStr ''Creamy tomato sauce with tender chicken''),
       (''price'', VFloat ''12.99''),
       (''image'', VStr ''https://images.unsplash.com/photo-1604909052743-88e0b01e6e8b?q=80&w=1600&auto=format&fit=crop''),
       (''restaurant_id'', VStr (py_str (dict_get rest_ids (VStr ''Spice Garden'')))),
       (''tags'', VList [''spicy'', ''non-veg'']),
       (''created_at'', VDatetime (now 4)),
       (''updated_at'', VDatetime (now 5))],
      [(''title'', VStr ''Paneer Tikka''),
       (''description'', VStr ''Grilled cottage cheese with spices''),
       (''price'', VFloat ''9.5''),
       (''image'', VStr ''https://images.unsplash.com/photo-1625944528146-1b02d4ca9d24?q=80&w=1600&auto=format&fit=crop''),
       (''restaurant_id'', VStr (py_str (dict_get rest_ids (VStr ''Spice Garden'')))),
       (''tags'', VList [''veg'', ''grill'']),
       (''created_at'', VDatetime (now 6)),
       (''updated_at'', VDatetime (now 7))],
      [(''title'', VStr ''Penne Arrabbiata''),
       (''description'', VStr ''Spicy tomato sauce with garlic and chili''),
       (''price'', VFloat ''10.99''),
       (''image'', VStr ''https://images.unsplash.com/photo-1473093295043-cdd812d0e601?q=80&w=1600&auto=format&fit=crop''),
       (''restaurant_id'', VStr (py_str (dict_get rest_ids (VStr ''Pasta Piazza'')))),
       (''tags'', VList [''veg'', ''pasta'']),
       (''created_at'', VDatetime (now 8)),
       (''updated_at'', VDatetime (now 9))]]"

text \<open>
  The routine returns the handle as it leaves it and the exception that ended it, if
  any. The two restaurants take \<open>new_oid 0\<close> and \<open>new_oid 1\<close>, the three products
  \<open>new_oid 2\<close> to \<open>new_oid 4\<close>.
\<close>

definition seed_restaurant_step ::
  "store \<Rightarrow> (nat \<Rightarrow> string) \<Rightarrow> (nat \<Rightarrow> oid) \<Rightarrow> store \<times> py_error option" where
  "seed_restaurant_step s now new_oid =
     (if count_documents (s ''restaurant'') [] = 0
      then (case insert_many (s ''restaurant'') new_oid 0 (seed_restaurants now) of
              (c, e) \<Rightarrow> (s(''restaurant'' := c), e))
      else (s, None))"

definition seed_product_step ::
  "store \<Rightarrow> (nat \<Rightarrow> string) \<Rightarrow> (nat \<Rightarrow> oid) \<Rightarrow> store \<times> py_error option" where
  "seed_product_step s now new_oid =
     (if count_documents (s ''product'') [] = 0
      then (let rest_docs = find_docs (s ''restaurant'') []
            in case rest_ids_of rest_docs [] of
                 Inl e \<Rightarrow> (s, Some e)
               | Inr rest_ids \<Rightarrow>
                   (case insert_many (s ''product'') new_oid 2 (seed_products now rest_ids) of
                      (c, e) \<Rightarrow> (s(''product'' := c), e)))
      else (s, None))"

definition seed_data ::
  "store option \<Rightarrow> (nat \<Rightarrow> string) \<Rightarrow> (nat \<Rightarrow> oid) \<Rightarrow> store option \<times> py_error option" where
  "seed_data db now new_oid =
     (case db of
        None \<Rightarrow> (None, None)
      | Some s \<Rightarrow>
          (case seed_restaurant_step s now new_oid of
             (s1, Some e) \<Rightarrow> (Some s1, Some e)
           | (s1, None) \<Rightarrow>
               (case seed_product_step s1 now new_oid of
                  (s2, e) \<Rightarrow> (Some s2, e))))"

subsection \<open>Auth: \<^verbatim>\<open>send_otp\<close> and \<^verbatim>\<open>verify_otp\<close>\<close>

definition otp_response :: doc where
  "otp_response =
     [(''success'', VBool True), (''otp'', VStr ''1234''),
      (''message'', VStr ''OTP generated. Use 1234 for demo.'')]"

definition new_user :: "string \<Rightarrow> (nat \<Rightarrow> string) \<Rightarrow> doc" where
  "new_user phone_no now =
     [(''phone'', VStr phone_no), (''name'', VNone), (''is_verified'', VBool False),
      (''last_login'', VStr (now 0)), (''created_at'', VDatetime (now 1)),
      (''updated_at'', VDatetime (now 2))]"

text \<open>
  \<^verbatim>\<open>if user:\<close> holds of a dictionary that is not empty; \<^verbatim>\<open>None\<close> and \<^verbatim>\<open>{}\<close> take
  the other branch.
\<close>

definition send_otp ::
  "store option \<Rightarrow> (nat \<Rightarrow> string) \<Rightarrow> (nat \<Rightarrow> oid) \<Rightarrow> SendOtpRequest
     \<Rightarrow> store option \<times> (failure + doc)" where
  "send_otp db now new_oid payload =
     (case db of
        None \<Rightarrow> (None, Inl (HTTPException 500 ''Database not configured''))
      | Some s \<Rightarrow>
          (let phone_no = strip (SendOtpRequest.phone payload)
           in if phone_no = [] then (Some s, Inl (HTTPException 400 ''Phone is required''))
              else
                (let found = find_one (s ''user'') [(''phone'', VStr phone_no)];
                     inserted =
                       (case insert_one (s ''user'') (new_oid 0) (new_user phone_no now) of
                          Inl e \<Rightarrow> (Some s, Inl (Unhandled e))
                        | Inr c \<Rightarrow> (Some (s(''user'' := c)), Inr otp_response))
                 in case found of
                      None \<Rightarrow> inserted
                    | Some u \<Rightarrow>
                        if u = [] then inserted
                        else (case getitem u ''_id'' of
                                Inl e \<Rightarrow> (Some s, Inl (Unhandled e))
                              | Inr i \<Rightarrow>
                                  (Some (s(''user'' :=
                                      update_one (s ''user'') [(''_id'', i)]
                                        [(''is_verified'', VBool False),
                                         (''last_login'', VStr (now 0))])),
                                   Inr otp_response)))))"

text \<open>
  In \<^verbatim>\<open>verify_otp\<close> the document is read back after the update and handed to
  \<^verbatim>\<open>to_str_id\<close>, which returns \<^verbatim>\<open>None\<close> unchanged at its first test.
\<close>

definition verify_otp ::
  "store option \<Rightarrow> (nat \<Rightarrow> string) \<Rightarrow> VerifyOtpRequest
     \<Rightarrow> store option \<times> (failure + VerifyOtpResponse)" where
  "verify_otp db now payload =
     (case db of
        None \<Rightarrow> (None, Inl (HTTPException 500 ''Database not configured''))
      | Some s \<Rightarrow>
          (let phone_no = strip (VerifyOtpRequest.phone payload)
           in if otp payload \<noteq> ''1234'' then (Some s, Inl (HTTPException 400 ''Invalid OTP''))
              else
                (let not_found = (Some s, Inl (HTTPException 404 ''User not found''))
                 in case find_one (s ''user'') [(''phone'', VStr phone_no)] of
                      None \<Rightarrow> not_found
                    | Some u \<Rightarrow>
                        if u = [] then not_found
                        else (case getitem u ''_id'' of
                                Inl e \<Rightarrow> (Some s, Inl (Unhandled e))
                              | Inr i \<Rightarrow>
                                  (let s' = s(''user'' :=
                                         update_one (s ''user'') [(''_id'', i)]
                                           [(''is_verified'', VBool True),
                                            (''updated_at'', VDatetime (now 0))])
                                   in case find_one (s' ''user'') [(''_id'', i)] of
                                        None \<Rightarrow>
                                          (Some s', Inr \<lparr>success = True, user = None\<rparr>)
                                      | Some d \<Rightarrow>
                                          (case to_str_id d of
                                             Inl e \<Rightarrow> (Some s', Inl (Unhandled e))
                                           | Inr d' \<Rightarrow>
                                               (Some s',
                                                Inr \<lparr>success = True, user = Some d'\<rparr>)))))))"

subsection \<open>Restaurants and products\<close>

definition unhandled :: "py_error + 'a \<Rightarrow> failure + 'a" where
  "unhandled r = (case r of Inl e \<Rightarrow> Inl (Unhandled e) | Inr x \<Rightarrow> Inr x)"

definition list_restaurants :: "store option \<Rightarrow> failure + RestaurantOut list" where
  "list_restaurants db =
     (case db of
        None \<Rightarrow> Inr []
      | Some s \<Rightarrow>
          (let docs = find_docs (s ''restaurant'') []
           in unhandled (map_err (\<lambda>d. bind_err (to_str_id d) RestaurantOut_of) docs)))"

definition get_restaurant :: "store option \<Rightarrow> string \<Rightarrow> failure + RestaurantOut" where
  "get_restaurant db restaurant_id =
     (case db of
        None \<Rightarrow> Inl (HTTPException 404 ''Not found'')
      | Some s \<Rightarrow>
          (let doc =
                 (if is_valid restaurant_id
                  then (case ObjectId_parse restaurant_id of
                          Inl e \<Rightarrow> None
                        | Inr i \<Rightarrow> find_one (s ''restaurant'') [(''_id'', VOid i)])
                  else find_one (s ''restaurant'') [(''_id'', VStr restaurant_id)])
           in case doc of
                None \<Rightarrow> Inl (HTTPException 404 ''Restaurant not found'')
              | Some d \<Rightarrow>
                  if d = [] then Inl (HTTPException 404 ''Restaurant not found'')
                  else unhandled (bind_err (to_str_id d) RestaurantOut_of)))"

definition get_restaurant_products :: "store option \<Rightarrow> string \<Rightarrow> failure + ProductOut list" where
  "get_restaurant_products db restaurant_id =
     (case db of
        None \<Rightarrow> Inr []
      | Some s \<Rightarrow>
          (let docs = find_docs (s ''product'') [(''restaurant_id'', VStr restaurant_id)]
           in unhandled (map_err (\<lambda>d. bind_err (to_str_id d) ProductOut_of) docs)))"

definition list_products :: "store option \<Rightarrow> failure + ProductOut list" where
  "list_products db =
     (case db of
        None \<Rightarrow> Inr []
      | Some s \<Rightarrow>
          (let docs = find_docs (s ''product'') []
           in unhandled (map_err (\<lambda>d. bind_err (to_str_id d) ProductOut_of) docs)))"

definition get_product :: "store option \<Rightarrow> string \<Rightarrow> failure + ProductOut" where
  "get_product db product_id =
     (case db of
        None \<Rightarrow> Inl (HTTPException 404 ''Not found'')
      | Some s \<Rightarrow>
          (let doc =
                 (if is_valid product_id
                  then (case ObjectId_parse product_id of
                          Inl e \<Rightarrow> None
                        | Inr i \<Rightarrow> find_one (s ''product'') [(''_id'', VOid i)])
                  else find_one (s ''product'') [(''_id'', VStr product_id)])
           in case doc of
                None \<Rightarrow> Inl (HTTPException 404 ''Product not found'')
              | Some d \<Rightarrow>
                  if d = [] then Inl (HTTPException 404 ''Product not found'')
                  else unhandled (bind_err (to_str_id d) ProductOut_of)))"

section \<open>Auxiliary definitions for the proofs\<close>

text \<open>What the loop of \<^verbatim>\<open>to_str_id\<close> does to one value.\<close>

definition conv :: "val \<Rightarrow> val" where
  "conv v = (if isinstance_ObjectId v then VStr (py_str v) else v)"

text \<open>
  \<open>set_fields i upd\<close> applies a field update to the document whose \<^verbatim>\<open>_id\<close> is \<open>i\<close>;
  \<open>otp_reset\<close> and \<open>otp_accept\<close> are the field updates of \<^verbatim>\<open>send_otp\<close> and
  \<^verbatim>\<open>verify_otp\<close>; \<open>stored ids ds\<close> are the documents \<open>ds\<close> as the store keeps them
  once it has given them the identifiers \<open>ids\<close>.
\<close>

definition set_fields :: "val \<Rightarrow> (string \<times> val) list \<Rightarrow> doc \<Rightarrow> doc" where
  "set_fields i upd d = (if map_of d ''_id'' = Some i then apply_set upd d else d)"

definition otp_reset :: "(nat \<Rightarrow> string) \<Rightarrow> (string \<times> val) list" where
  "otp_reset now = [(''is_verified'', VBool False), (''last_login'', VStr (now 0))]"

definition otp_accept :: "(nat \<Rightarrow> string) \<Rightarrow> (string \<times> val) list" where
  "otp_accept now = [(''is_verified'', VBool True), (''updated_at'', VDatetime (now 0))]"

definition stored :: "oid list \<Rightarrow> doc list \<Rightarrow> doc list" where
  "stored ids ds = map2 (\<lambda>i d. (''_id'', VOid i) # d) ids ds"

text \<open>Concrete inputs on which the theorems below are exercised.\<close>

definition empty_store :: store where
  "empty_store = (\<lambda>name. [])"

definition sample_now :: "nat \<Rightarrow> string" where
  "sample_now k = ''2024-01-01T00:00:00+00:00''"

definition sample_oid :: "nat \<Rightarrow> oid" where
  "sample_oid k = ObjectId (''65a1b2c3d4e5f60718293a4'' @ [hex_digit k])"

definition sample_user :: doc where
  "sample_user =
     [(''_id'', VOid (sample_oid 7)), (''phone'', VStr ''555-0100''), (''name'', VNone),
      (''is_verified'', VBool True), (''last_login'', VStr (sample_now 0)),
      (''created_at'', VDatetime (sample_now 1)), (''updated_at'', VDatetime (sample_now 2))]"

definition sample_store :: store where
  "sample_store =
     empty_store
       (''user'' := [sample_user],
        ''restaurant'' := stored [sample_oid 0, sample_oid 1] (seed_restaurants sample_now),
        ''product'' := stored [sample_oid 2, sample_oid 3, sample_oid 4]
           (seed_products sample_now
              [(VStr ''Spice Garden'', VOid (sample_oid 0)),
               (VStr ''Pasta Piazza'', VOid (sample_oid 1))]))"

section \<open>The sample inputs\<close>

lemma sample_oid_simps:
  "sample_oid 0 = ObjectId ''65a1b2c3d4e5f60718293a40''"
  "sample_oid 1 = ObjectId ''65a1b2c3d4e5f60718293a41''"
  "sample_oid (Suc 0) = ObjectId ''65a1b2c3d4e5f60718293a41''"
  "sample_oid 2 = ObjectId ''65a1b2c3d4e5f60718293a42''"
  "sample_oid 3 = ObjectId ''65a1b2c3d4e5f60718293a43''"
  "sample_oid 4 = ObjectId ''65a1b2c3d4e5f60718293a44''"
  "sample_oid 7 = ObjectId ''65a1b2c3d4e5f60718293a47''"
  by (simp_all add: sample_oid_def hex_digit_def)

lemma sample_store_simps:
  "sample_store ''user'' = [sample_user]"
  "sample_store ''restaurant'' = stored [sample_oid 0, sample_oid 1] (seed_restaurants sample_now)"
  "sample_store ''product'' = stored [sample_oid 2, sample_oid 3, sample_oid 4]
           (seed_products sample_now
              [(VStr ''Spice Garden'', VOid (sample_oid 0)),
               (VStr ''Pasta Piazza'', VOid (sample_oid 1))])"
  by (simp_all add: sample_store_def)

lemma strip_sample: "strip '' 555-0100 '' = ''555-0100''" "strip ''  '' = []"
  by (simp_all add: strip_def isspace_def)

lemma wf_sample_users: "wf_collection (sample_store ''user'')"
  by (simp add: sample_store_simps wf_collection_def sample_user_def is_dict_def contains_def
      ids_of_def)

lemma find_sample_user:
  "find_docs (sample_store ''user'') [(''phone'', VStr ''555-0100'')] = [sample_user]"
  by (simp add: sample_store_simps find_docs_def matches_def sample_user_def)

section \<open>Properties of \<^verbatim>\<open>to_str_id\<close>\<close>

lemma update_past_prefix:
  "k \<notin> fst ` set xs \<Longrightarrow> AList.update k v (xs @ (k, w) # ys) = xs @ (k, v) # ys"
  by (induction xs) auto

lemma stringify_item_at:
  assumes "k \<notin> fst ` set xs"
  shows "stringify_item (k, v) (xs @ (k, v) # ys) = xs @ (k, conv v) # ys"
  using assms by (simp add: stringify_item_def setitem_def conv_def update_past_prefix)

lemma fold_stringify_gen:
  "distinct (map fst (xs @ ys)) \<Longrightarrow>
   fold stringify_item ys (map (\<lambda>kv. (fst kv, conv (snd kv))) xs @ ys)
     = map (\<lambda>kv. (fst kv, conv (snd kv))) (xs @ ys)"
proof (induction ys arbitrary: xs)
  case Nil
  then show ?case by simp
next
  case (Cons p ys)
  obtain k v where p: "p = (k, v)" by (cases p)
  let ?cv = "\<lambda>kv. (fst kv, conv (snd kv))"
  from Cons.prems p have notin: "k \<notin> fst ` set (map ?cv xs)"
    by (auto simp: image_iff)
  have step: "stringify_item p (map ?cv xs @ p # ys) = map ?cv (xs @ [p]) @ ys"
    using stringify_item_at [OF notin, of v ys] p by simp
  from Cons.prems have "distinct (map fst ((xs @ [p]) @ ys))" by simp
  from Cons.IH [OF this] step show ?case by simp
qed

lemma fold_stringify_dict:
  "is_dict d \<Longrightarrow> fold stringify_item d d = map (\<lambda>kv. (fst kv, conv (snd kv))) d"
  using fold_stringify_gen [of "[]" d] by (simp add: is_dict_def)

lemma fold_stringify_noop:
  "list_all (\<lambda>kv. \<not> isinstance_ObjectId (snd kv)) xs \<Longrightarrow> fold stringify_item xs d = d"
  by (induction xs arbitrary: d) (auto simp: stringify_item_def)

lemma rename_id_total: "\<exists>d'. rename_id d = Inr d'"
  by (auto simp: rename_id_def contains_def pop_def split: option.splits)

lemma to_str_id_total: "\<exists>d'. to_str_id d = Inr d'"
  using rename_id_total [of d] by (auto simp: to_str_id_def)

lemma rename_id_dict: "is_dict d \<Longrightarrow> rename_id d = Inr d' \<Longrightarrow> is_dict d'"
  by (auto simp: rename_id_def is_dict_def contains_def pop_def setitem_def
      AList.distinct_update AList.distinct_delete split: if_splits option.splits)

lemma rename_id_no_id: "rename_id d = Inr d' \<Longrightarrow> \<not> contains ''_id'' d'"
  by (auto simp: rename_id_def contains_def pop_def setitem_def AList.update_conv'
      AList.delete_conv' split: if_splits option.splits)

lemma rename_id_nonempty: "d \<noteq> [] \<Longrightarrow> rename_id d = Inr d' \<Longrightarrow> d' \<noteq> []"
  by (auto simp: rename_id_def contains_def pop_def setitem_def split: if_splits option.splits)

lemma to_str_id_dict:
  assumes "is_dict d" "d \<noteq> []" "rename_id d = Inr d1"
  shows "to_str_id d = Inr (map (\<lambda>kv. (fst kv, conv (snd kv))) d1)"
  using assms fold_stringify_dict [OF rename_id_dict [OF assms(1,3)]]
  by (simp add: to_str_id_def)

lemma contains_map_conv:
  "contains k (map (\<lambda>kv. (fst kv, conv (snd kv))) d) = contains k d"
  by (induction d) (auto simp: contains_def)

lemma conv_not_oid: "\<not> isinstance_ObjectId (conv v)"
  by (cases v) (auto simp: conv_def)

lemma to_str_id_passthrough:
  assumes "\<not> contains ''_id'' d" "list_all (\<lambda>kv. \<not> isinstance_ObjectId (snd kv)) d"
  shows "to_str_id d = Inr d"
  using assms by (simp add: to_str_id_def rename_id_def fold_stringify_noop)

lemma to_str_id_normal:
  assumes "is_dict d" "to_str_id d = Inr d'"
  shows "\<not> contains ''_id'' d' \<and> list_all (\<lambda>kv. \<not> isinstance_ObjectId (snd kv)) d'"
proof (cases "d = []")
  case True
  with assms show ?thesis by (simp add: to_str_id_def contains_def)
next
  case False
  obtain d1 where d1: "rename_id d = Inr d1" using rename_id_total by blast
  from to_str_id_dict [OF assms(1) False d1] assms(2)
  have d': "d' = map (\<lambda>kv. (fst kv, conv (snd kv))) d1" by simp
  show ?thesis
    using rename_id_no_id [OF d1]
    by (simp add: d' contains_map_conv list_all_iff conv_not_oid)
qed

text \<open>
  Claim C4. \<^verbatim>\<open>to_str_id\<close> is total and idempotent: on every input it returns a
  dictionary and raises nothing; applied to its own result of a dictionary it returns that
  result again; and a document with no \<^verbatim>\<open>_id\<close> field and no \<^verbatim>\<open>ObjectId\<close> value comes
  back unchanged.
\<close>

theorem to_str_id_idempotent_total:
  "\<exists>d'. to_str_id d = Inr d'
      \<and> (is_dict d \<longrightarrow> to_str_id d' = Inr d')
      \<and> (\<not> contains ''_id'' d \<and> list_all (\<lambda>kv. \<not> isinstance_ObjectId (snd kv)) d
            \<longrightarrow> d' = d)"
proof -
  obtain d' where d': "to_str_id d = Inr d'" using to_str_id_total by blast
  have "to_str_id d' = Inr d'" if "is_dict d"
    using to_str_id_normal [OF that d'] by (simp add: to_str_id_passthrough)
  moreover have "d' = d"
    if "\<not> contains ''_id'' d \<and> list_all (\<lambda>kv. \<not> isinstance_ObjectId (snd kv)) d"
    using d' that by (simp add: to_str_id_passthrough)
  ultimately show ?thesis using d' by blast
qed

theorem to_str_id_idempotent_total_witness:
  "is_dict [(''_id'', VOid (sample_oid 7)), (''owner'', VOid (sample_oid 3)), (''name'', VStr ''Ann'')]
   \<and> to_str_id [(''_id'', VOid (sample_oid 7)), (''owner'', VOid (sample_oid 3)), (''name'', VStr ''Ann'')]
       = Inr [(''owner'', VStr ''65a1b2c3d4e5f60718293a43''), (''name'', VStr ''Ann''),
              (''id'', VStr ''65a1b2c3d4e5f60718293a47'')]
   \<and> to_str_id [(''owner'', VStr ''65a1b2c3d4e5f60718293a43''), (''name'', VStr ''Ann''),
                 (''id'', VStr ''65a1b2c3d4e5f60718293a47'')]
       = Inr [(''owner'', VStr ''65a1b2c3d4e5f60718293a43''), (''name'', VStr ''Ann''),
              (''id'', VStr ''65a1b2c3d4e5f60718293a47'')]"
proof -
  let ?d = "[(''_id'', VOid (sample_oid 7)), (''owner'', VOid (sample_oid 3)), (''name'', VStr ''Ann'')]"
  let ?r = "[(''owner'', VStr ''65a1b2c3d4e5f60718293a43''), (''name'', VStr ''Ann''),
             (''id'', VStr ''65a1b2c3d4e5f60718293a47'')]"
  have dict: "is_dict ?d" by (simp add: is_dict_def)
  have run: "to_str_id ?d = Inr ?r"
    by (simp add: to_str_id_def rename_id_def contains_def pop_def setitem_def
        stringify_item_def sample_oid_simps)
  from to_str_id_idempotent_total [of ?d] dict run have "to_str_id ?r = Inr ?r" by auto
  with dict run show ?thesis by simp
qed

lemma fold_heap_stringify:
  "a < length h \<Longrightarrow>
   fold (heap_stringify_item a) xs h = h[a := fold stringify_item xs (h ! a)]"
proof (induction xs arbitrary: h)
  case Nil
  then show ?case by simp
next
  case (Cons p xs)
  have len: "a < length (heap_stringify_item a p h)"
    using Cons.prems by (cases p) (simp add: heap_stringify_item_def heap_setitem_def)
  have cell: "heap_stringify_item a p h = h[a := stringify_item p (h ! a)]"
    by (cases p) (simp add: heap_stringify_item_def heap_setitem_def stringify_item_def)
  show ?case
    using Cons.IH [OF len] Cons.prems by (simp add: cell)
qed

lemma heap_rename_id_cell:
  "a < length h \<Longrightarrow>
   heap_rename_id h a = (case rename_id (h ! a) of Inl e \<Rightarrow> Inl e | Inr d \<Rightarrow> Inr (h[a := d]))"
  by (auto simp: heap_rename_id_def rename_id_def heap_pop_def heap_setitem_def pop_def
      contains_def split: option.splits)

text \<open>
  Claim C9. \<^verbatim>\<open>to_str_id\<close> does not mutate its argument: called on a dictionary that is
  not empty it returns a new cell, every cell that existed before the call, the argument
  among them, holds what it held, and the new cell holds the normalized document.
\<close>

theorem to_str_id_heap_frame:
  assumes "doc < length h" "h ! doc \<noteq> []"
  shows "\<exists>h' d. to_str_id_heap h doc = Inr (h', d) \<and> d \<noteq> doc \<and> d < length h'
           \<and> take (length h) h' = h \<and> h' ! doc = h ! doc
           \<and> to_str_id (h ! doc) = Inr (h' ! d)"
proof -
  obtain d1 where d1: "rename_id (h ! doc) = Inr d1" using rename_id_total by blast
  let ?h1 = "h @ [h ! doc]"
  let ?d = "length h"
  have h2: "heap_rename_id ?h1 ?d = Inr (?h1[?d := d1])"
    using d1 by (simp add: heap_rename_id_cell)
  have loop: "fold (heap_stringify_item ?d) d1 (?h1[?d := d1]) = h @ [fold stringify_item d1 d1]"
    by (simp add: fold_heap_stringify)
  have run: "to_str_id_heap h doc = Inr (h @ [fold stringify_item d1 d1], ?d)"
    using assms(2) h2 loop by (simp add: to_str_id_heap_def dict_copy_def)
  have val: "to_str_id (h ! doc) = Inr (fold stringify_item d1 d1)"
    using assms(2) d1 by (simp add: to_str_id_def)
  show ?thesis
    using assms(1) run val by (simp add: nth_append)
qed

theorem to_str_id_heap_frame_witness:
  "(0::nat) < length [sample_user] \<and> [sample_user] ! 0 \<noteq> []
   \<and> (\<exists>h' d. to_str_id_heap [sample_user] 0 = Inr (h', d) \<and> d \<noteq> 0
         \<and> h' ! 0 = sample_user \<and> to_str_id sample_user = Inr (h' ! d))"
proof -
  have a: "(0::nat) < length [sample_user]" by simp
  have b: "[sample_user] ! 0 \<noteq> []" by (simp add: sample_user_def)
  from to_str_id_heap_frame [OF a b] a b show ?thesis by auto
qed

section \<open>Properties of the store operations\<close>

lemma matches_single [simp]: "matches [(k, v)] d = (map_of d k = Some v)"
  by (simp add: matches_def)

lemma matches_all [simp]: "matches [] d"
  by (simp add: matches_def)

lemma find_docs_all [simp]: "find_docs c [] = c"
  by (simp add: find_docs_def)

lemma map_of_apply_set_other:
  "k \<notin> fst ` set upd \<Longrightarrow> map_of (apply_set upd d) k = map_of d k"
  unfolding apply_set_def
  by (induction upd arbitrary: d) (auto simp: AList.update_conv')

lemma is_dict_apply_set: "is_dict d \<Longrightarrow> is_dict (apply_set upd d)"
  unfolding apply_set_def is_dict_def
  by (induction upd arbitrary: d) (auto simp: AList.distinct_update)

lemma map_set_fields_absent:
  "Some i \<notin> set (ids_of c) \<Longrightarrow> map (set_fields i upd) c = c"
  by (induction c) (auto simp: ids_of_def set_fields_def)

lemma update_one_by_id:
  "distinct (ids_of c) \<Longrightarrow> update_one c [(''_id'', i)] upd = map (set_fields i upd) c"
proof (induction c)
  case Nil
  then show ?case by simp
next
  case (Cons d ds)
  show ?case
  proof (cases "map_of d ''_id'' = Some i")
    case True
    with Cons.prems have "Some i \<notin> set (ids_of ds)" by (auto simp: ids_of_def)
    then have "map (set_fields i upd) ds = ds" by (rule map_set_fields_absent)
    moreover have "set_fields i upd d = apply_set upd d" using True by (simp add: set_fields_def)
    ultimately show ?thesis using True by simp
  next
    case False
    with Cons show ?thesis by (simp add: ids_of_def set_fields_def)
  qed
qed

lemma set_fields_id:
  "''_id'' \<notin> fst ` set upd \<Longrightarrow> map_of (set_fields i upd d) ''_id'' = map_of d ''_id''"
  by (simp add: set_fields_def map_of_apply_set_other)

lemma ids_of_set_fields:
  "''_id'' \<notin> fst ` set upd \<Longrightarrow> ids_of (map (set_fields i upd) c) = ids_of c"
  by (simp add: ids_of_def set_fields_id)

lemma wf_set_fields:
  assumes "wf_collection c" "''_id'' \<notin> fst ` set upd"
  shows "wf_collection (map (set_fields i upd) c)"
proof -
  have "is_dict (set_fields i upd d) \<and> contains ''_id'' (set_fields i upd d)"
    if "is_dict d \<and> contains ''_id'' d" for d
    using that assms(2) set_fields_id [OF assms(2), of i d]
    by (auto simp: contains_def set_fields_def is_dict_apply_set)
  with assms show ?thesis
    by (auto simp: wf_collection_def list_all_iff ids_of_set_fields)
qed

lemma find_docs_map:
  "(\<And>d. matches q (g d) = matches q d) \<Longrightarrow> find_docs (map g c) q = map g (find_docs c q)"
  by (simp add: find_docs_def filter_map o_def)

lemma matches_set_fields:
  "k \<notin> fst ` set upd \<Longrightarrow> matches [(k, v)] (set_fields i upd d) = matches [(k, v)] d"
  by (simp add: set_fields_def map_of_apply_set_other)

lemma find_one_Some:
  "find_one c q = Some u \<Longrightarrow> u \<in> set c \<and> matches q u"
  unfolding find_one_def find_docs_def
  by (auto split: list.splits dest: filter_eq_ConsD)

lemma find_one_None: "find_one c q = None \<longleftrightarrow> find_docs c q = []"
  by (simp add: find_one_def split: list.splits)

lemma same_id_same_doc:
  assumes "distinct (ids_of c)" "d \<in> set c" "e \<in> set c" "map_of d ''_id'' = map_of e ''_id''"
  shows "d = e"
  using assms by (auto simp: ids_of_def distinct_map dest: inj_onD)

lemma find_docs_by_id:
  assumes "distinct (ids_of c)" "u \<in> set c" "map_of u ''_id'' = Some i"
  shows "find_docs c [(''_id'', i)] = [u]"
proof -
  have "filter (\<lambda>d. map_of d ''_id'' = Some i) c = [u]"
    using assms
  proof (induction c)
    case Nil
    then show ?case by simp
  next
    case (Cons d ds)
    show ?case
    proof (cases "d = u")
      case True
      from Cons.prems have "Some i \<notin> set (ids_of ds)" using True by (auto simp: ids_of_def)
      then have "filter (\<lambda>d. map_of d ''_id'' = Some i) ds = []"
        by (force simp: ids_of_def filter_empty_conv image_iff)
      with True Cons.prems show ?thesis by simp
    next
      case False
      with Cons.prems have "u \<in> set ds" by simp
      moreover from Cons.prems False have "map_of d ''_id'' \<noteq> Some i"
        using same_id_same_doc [OF Cons.prems(1), of d u] by auto
      ultimately show ?thesis using Cons by (simp add: ids_of_def)
    qed
  qed
  moreover have "matches [(''_id'', i)] = (\<lambda>d. map_of d ''_id'' = Some i)"
    by (rule ext) simp
  ultimately show ?thesis by (simp add: find_docs_def)
qed

lemma map_of_map_conv:
  "map_of (map (\<lambda>kv. (fst kv, conv (snd kv))) d) k = map_option conv (map_of d k)"
  by (induction d) auto

lemma rename_id_other:
  "rename_id d = Inr d1 \<Longrightarrow> k \<noteq> ''_id'' \<Longrightarrow> k \<noteq> ''id'' \<Longrightarrow> map_of d1 k = map_of d k"
  by (auto simp: rename_id_def contains_def pop_def setitem_def AList.update_conv'
      AList.delete_conv' split: if_splits option.splits)

lemma to_str_id_field:
  assumes "is_dict d" "to_str_id d = Inr r" "k \<noteq> ''_id''" "k \<noteq> ''id''"
  shows "map_of r k = map_option conv (map_of d k)"
proof (cases "d = []")
  case True
  with assms show ?thesis by (simp add: to_str_id_def)
next
  case False
  obtain d1 where d1: "rename_id d = Inr d1" using rename_id_total by blast
  from to_str_id_dict [OF assms(1) False d1] assms(2)
  have "r = map (\<lambda>kv. (fst kv, conv (snd kv))) d1" by simp
  then show ?thesis using rename_id_other [OF d1 assms(3,4)] by (simp add: map_of_map_conv)
qed

lemma wf_collection_member:
  "wf_collection c \<Longrightarrow> d \<in> set c \<Longrightarrow> is_dict d \<and> (\<exists>i. map_of d ''_id'' = Some i) \<and> d \<noteq> []"
  by (auto simp: wf_collection_def list_all_iff contains_def)

lemma wf_collection_distinct: "wf_collection c \<Longrightarrow> distinct (ids_of c)"
  by (simp add: wf_collection_def)



lemma send_otp_insert:
  assumes "strip ph \<noteq> []"
    and "find_one (s ''user'') [(''phone'', VStr (strip ph))] = None"
    and "Some (VOid (new_oid 0)) \<notin> set (ids_of (s ''user''))"
  shows "send_otp (Some s) now new_oid \<lparr>SendOtpRequest.phone = ph\<rparr> =
           (Some (s(''user'' := s ''user'' @ [(''_id'', VOid (new_oid 0)) # new_user (strip ph) now])),
            Inr otp_response)"
  using assms
  by (simp add: send_otp_def insert_one_def with_id_def new_user_def contains_def Let_def)

lemma send_otp_update:
  assumes "strip ph \<noteq> []"
    and "wf_collection (s ''user'')"
    and "find_one (s ''user'') [(''phone'', VStr (strip ph))] = Some u"
    and "map_of u ''_id'' = Some i"
  shows "send_otp (Some s) now new_oid \<lparr>SendOtpRequest.phone = ph\<rparr> =
           (Some (s(''user'' := map (set_fields i (otp_reset now)) (s ''user''))),
            Inr otp_response)"
proof -
  from find_one_Some [OF assms(3)] wf_collection_member [OF assms(2)] have "u \<noteq> []" by blast
  then show ?thesis
    using assms update_one_by_id [OF wf_collection_distinct [OF assms(2)], of i "otp_reset now"]
    by (simp add: send_otp_def getitem_def Let_def otp_reset_def)
qed

lemma verify_otp_found:
  assumes "wf_collection (s ''user'')"
    and "find_one (s ''user'') [(''phone'', VStr (strip ph))] = Some u"
    and "map_of u ''_id'' = Some i"
    and "to_str_id (apply_set (otp_accept now) u) = Inr r"
  shows "verify_otp (Some s) now \<lparr>VerifyOtpRequest.phone = ph, otp = ''1234''\<rparr> =
           (Some (s(''user'' := map (set_fields i (otp_accept now)) (s ''user''))),
            Inr \<lparr>success = True, user = Some r\<rparr>)"
proof -
  let ?c = "s ''user''"
  let ?g = "set_fields i (otp_accept now)"
  have u: "u \<in> set ?c" using find_one_Some [OF assms(2)] by simp
  then have ne: "u \<noteq> []" using wf_collection_member [OF assms(1)] by blast
  have dist: "distinct (ids_of ?c)" by (rule wf_collection_distinct [OF assms(1)])
  have upd: "update_one ?c [(''_id'', i)] (otp_accept now) = map ?g ?c"
    by (rule update_one_by_id [OF dist])
  have keep: "matches [(''_id'', i)] (?g d) = matches [(''_id'', i)] d" for d
    by (rule matches_set_fields) (simp add: otp_accept_def)
  have "find_docs (map ?g ?c) [(''_id'', i)] = map ?g (find_docs ?c [(''_id'', i)])"
    by (rule find_docs_map) (rule keep)
  also have "\<dots> = [?g u]" by (simp add: find_docs_by_id [OF dist u assms(3)])
  also have "?g u = apply_set (otp_accept now) u" using assms(3) by (simp add: set_fields_def)
  finally have reread: "find_one (map ?g ?c) [(''_id'', i)] = Some (apply_set (otp_accept now) u)"
    by (simp add: find_one_def)
  have upd2: "update_one ?c [(''_id'', i)]
        [(''is_verified'', VBool True), (''updated_at'', VDatetime (now 0))] = map ?g ?c"
    using upd by (simp add: otp_accept_def)
  show ?thesis
    using assms(2,3,4) ne reread
    by (simp add: verify_otp_def getitem_def Let_def upd2)
qed

section \<open>The OTP flow\<close>

lemma find_docs_append: "find_docs (c @ c') q = find_docs c q @ find_docs c' q"
  by (simp add: find_docs_def)

lemma ids_of_append: "ids_of (c @ c') = ids_of c @ ids_of c'"
  by (simp add: ids_of_def)

lemma wf_collection_snoc:
  assumes "wf_collection c" "is_dict d" "map_of d ''_id'' = Some i" "Some i \<notin> set (ids_of c)"
  shows "wf_collection (c @ [d])"
  using assms by (auto simp: wf_collection_def ids_of_def contains_def)

lemma new_user_doc:
  "is_dict ((''_id'', VOid j) # new_user p now)"
  "map_of ((''_id'', VOid j) # new_user p now) ''_id'' = Some (VOid j)"
  "matches [(''phone'', VStr p)] ((''_id'', VOid j) # new_user p now)"
  by (simp_all add: is_dict_def new_user_def)

lemma send_otp_ok:
  assumes wf: "wf_collection (s ''user'')"
    and nonblank: "strip ph \<noteq> []"
    and fresh: "Some (VOid (new_oid 0)) \<notin> set (ids_of (s ''user''))"
  shows "\<exists>c1. send_otp (Some s) now new_oid \<lparr>SendOtpRequest.phone = ph\<rparr> =
                (Some (s(''user'' := c1)), Inr otp_response)
            \<and> wf_collection c1
            \<and> length (find_docs c1 [(''phone'', VStr (strip ph))]) =
                max 1 (length (find_docs (s ''user'') [(''phone'', VStr (strip ph))]))"
proof (cases "find_one (s ''user'') [(''phone'', VStr (strip ph))]")
  case None
  let ?d = "(''_id'', VOid (new_oid 0)) # new_user (strip ph) now"
  have "wf_collection (s ''user'' @ [?d])"
    by (rule wf_collection_snoc [OF wf new_user_doc(1) new_user_doc(2) fresh])
  moreover have "find_docs (s ''user'' @ [?d]) [(''phone'', VStr (strip ph))] = [?d]"
    using None new_user_doc(3) [of "strip ph" "new_oid 0" now]
    by (simp add: find_docs_append find_one_None) (simp add: find_docs_def)
  moreover have "find_docs (s ''user'') [(''phone'', VStr (strip ph))] = []"
    using None by (simp add: find_one_None)
  ultimately show ?thesis
    using send_otp_insert [where s=s and ph=ph and new_oid=new_oid and now=now, OF nonblank None fresh]
    by (intro exI [of _ "s ''user'' @ [?d]"]) simp
next
  case (Some u)
  from find_one_Some [OF Some] wf_collection_member [OF wf]
  obtain i where i: "map_of u ''_id'' = Some i" by blast
  let ?g = "set_fields i (otp_reset now)"
  have keys: "''_id'' \<notin> fst ` set (otp_reset now)" "''phone'' \<notin> fst ` set (otp_reset now)"
    by (simp_all add: otp_reset_def)
  have "wf_collection (map ?g (s ''user''))" by (rule wf_set_fields [OF wf keys(1)])
  moreover have "find_docs (map ?g (s ''user'')) [(''phone'', VStr (strip ph))] =
      map ?g (find_docs (s ''user'') [(''phone'', VStr (strip ph))])"
    by (rule find_docs_map) (rule matches_set_fields [OF keys(2)])
  moreover have "find_docs (s ''user'') [(''phone'', VStr (strip ph))] \<noteq> []"
    using Some by (auto simp: find_one_def)
  then have "max 1 (length (find_docs (s ''user'') [(''phone'', VStr (strip ph))])) =
      length (find_docs (s ''user'') [(''phone'', VStr (strip ph))])"
    by (cases "find_docs (s ''user'') [(''phone'', VStr (strip ph))]") simp_all
  ultimately show ?thesis
    using send_otp_update [where s=s and ph=ph and new_oid=new_oid and now=now, OF nonblank wf Some i]
    by (intro exI [of _ "map ?g (s ''user'')"]) simp
qed

lemma verify_otp_ok:
  assumes wf: "wf_collection (s ''user'')"
    and found: "find_one (s ''user'') [(''phone'', VStr (strip ph))] = Some u"
  shows "\<exists>s2 r. verify_otp (Some s) now \<lparr>VerifyOtpRequest.phone = ph, otp = ''1234''\<rparr> =
                (Some s2, Inr \<lparr>success = True, user = Some r\<rparr>)
            \<and> map_of r ''is_verified'' = Some (VBool True)
            \<and> map_of r ''phone'' = Some (VStr (strip ph))"
proof -
  from find_one_Some [OF found] wf_collection_member [OF wf]
  obtain i where i: "map_of u ''_id'' = Some i" and dict: "is_dict u"
    and ph: "map_of u ''phone'' = Some (VStr (strip ph))" by auto
  let ?u = "apply_set (otp_accept now) u"
  obtain r where r: "to_str_id ?u = Inr r" using to_str_id_total by blast
  have d: "is_dict ?u" by (rule is_dict_apply_set [OF dict])
  have "map_of ?u ''is_verified'' = Some (VBool True)"
    by (simp add: apply_set_def otp_accept_def AList.update_conv')
  then have v: "map_of r ''is_verified'' = Some (VBool True)"
    using to_str_id_field [OF d r, of "''is_verified''"] by (simp add: conv_def)
  have "map_of ?u ''phone'' = Some (VStr (strip ph))"
    using ph by (simp add: map_of_apply_set_other otp_accept_def)
  then have p: "map_of r ''phone'' = Some (VStr (strip ph))"
    using to_str_id_field [OF d r, of "''phone''"] by (simp add: conv_def)
  show ?thesis using verify_otp_found [where s=s and ph=ph and now=now, OF wf found i r] v p by blast
qed

text \<open>
  Claim C1. For a phone that is not empty after trimming, with the store available,
  \<^verbatim>\<open>send_otp\<close> succeeds and \<^verbatim>\<open>verify_otp\<close> with the code \<^verbatim>\<open>1234\<close> then succeeds and
  returns the user of that phone with \<^verbatim>\<open>is_verified\<close> true. The user collection is as
  the store keeps it (\<open>wf_collection\<close>) and the identifier generated for a new user is
  not in use.
\<close>

theorem send_then_verify:
  assumes wf: "wf_collection (s ''user'')"
    and nonblank: "strip ph \<noteq> []"
    and fresh: "Some (VOid (new_oid 0)) \<notin> set (ids_of (s ''user''))"
  shows "\<exists>s1 s2 r.
           send_otp (Some s) now new_oid \<lparr>SendOtpRequest.phone = ph\<rparr> = (Some s1, Inr otp_response)
         \<and> verify_otp (Some s1) now2 \<lparr>VerifyOtpRequest.phone = ph, otp = ''1234''\<rparr> =
             (Some s2, Inr \<lparr>success = True, user = Some r\<rparr>)
         \<and> map_of r ''is_verified'' = Some (VBool True)
         \<and> map_of r ''phone'' = Some (VStr (strip ph))"
proof -
  from send_otp_ok [where s=s and ph=ph and new_oid=new_oid and now=now, OF wf nonblank fresh]
  obtain c1 where sent: "send_otp (Some s) now new_oid \<lparr>SendOtpRequest.phone = ph\<rparr> =
        (Some (s(''user'' := c1)), Inr otp_response)"
    and wf1: "wf_collection c1"
    and len: "length (find_docs c1 [(''phone'', VStr (strip ph))]) =
        max 1 (length (find_docs (s ''user'') [(''phone'', VStr (strip ph))]))"
    by blast
  from len obtain u where "find_one c1 [(''phone'', VStr (strip ph))] = Some u"
    by (cases "find_docs c1 [(''phone'', VStr (strip ph))]") (auto simp: find_one_def)
  then have found: "find_one ((s(''user'' := c1)) ''user'') [(''phone'', VStr (strip ph))] = Some u"
    by simp
  have wf1': "wf_collection ((s(''user'' := c1)) ''user'')" using wf1 by simp
  from verify_otp_ok [where s="s(''user'' := c1)" and ph=ph and now=now2, OF wf1' found] sent show ?thesis by blast
qed

theorem send_then_verify_witness:
  "wf_collection (sample_store ''user'') \<and> strip '' 555-0100 '' \<noteq> []
   \<and> Some (VOid (sample_oid 0)) \<notin> set (ids_of (sample_store ''user''))
   \<and> (\<exists>s1 s2 r.
         send_otp (Some sample_store) sample_now sample_oid \<lparr>SendOtpRequest.phone = '' 555-0100 ''\<rparr>
           = (Some s1, Inr otp_response)
       \<and> verify_otp (Some s1) sample_now \<lparr>VerifyOtpRequest.phone = '' 555-0100 '', otp = ''1234''\<rparr>
           = (Some s2, Inr \<lparr>success = True, user = Some r\<rparr>)
       \<and> map_of r ''is_verified'' = Some (VBool True)
       \<and> map_of r ''phone'' = Some (VStr ''555-0100''))"
proof -
  have wf: "wf_collection (sample_store ''user'')" by (rule wf_sample_users)
  have nb: "strip '' 555-0100 '' \<noteq> []" by (simp add: strip_sample)
  have fr: "Some (VOid (sample_oid 0)) \<notin> set (ids_of (sample_store ''user''))"
    by (simp add: sample_store_simps ids_of_def sample_user_def sample_oid_simps)
  from send_then_verify [where s = sample_store and new_oid = sample_oid and now = sample_now
      and ?now2.0 = sample_now, OF wf nb fr]
  show ?thesis using wf nb fr by (simp add: strip_sample)
qed

text \<open>
  Claim C3, amended. For a phone that is not empty after trimming, starting with at most
  one user of that phone, two calls of \<^verbatim>\<open>send_otp\<close> succeed and the second inserts
  nothing: it replaces the one user \<open>u\<close> of that phone by \<open>u2\<close>, whose
  \<^verbatim>\<open>is_verified\<close> is false and whose \<^verbatim>\<open>last_login\<close> is the time of the second call, and
  leaves every other document and the identifiers as they were.
\<close>

theorem send_otp_twice:
  assumes wf: "wf_collection (s ''user'')"
    and nonblank: "strip ph \<noteq> []"
    and fresh: "Some (VOid (new_oid 0)) \<notin> set (ids_of (s ''user''))"
    and one: "length (find_docs (s ''user'') [(''phone'', VStr (strip ph))]) \<le> 1"
  shows "\<exists>s1 s2 u u2.
           send_otp (Some s) now new_oid \<lparr>SendOtpRequest.phone = ph\<rparr> = (Some s1, Inr otp_response)
         \<and> send_otp (Some s1) now2 new_oid2 \<lparr>SendOtpRequest.phone = ph\<rparr> = (Some s2, Inr otp_response)
         \<and> find_docs (s1 ''user'') [(''phone'', VStr (strip ph))] = [u]
         \<and> find_docs (s2 ''user'') [(''phone'', VStr (strip ph))] = [u2]
         \<and> s2 = s1(''user'' := map (\<lambda>d. if d = u then u2 else d) (s1 ''user''))
         \<and> length (s2 ''user'') = length (s1 ''user'')
         \<and> ids_of (s2 ''user'') = ids_of (s1 ''user'')
         \<and> map_of u2 ''is_verified'' = Some (VBool False)
         \<and> map_of u2 ''last_login'' = Some (VStr (now2 0))"
proof -
  let ?q = "[(''phone'', VStr (strip ph))]"
  from send_otp_ok [where s=s and ph=ph and new_oid=new_oid and now=now, OF wf nonblank fresh]
  obtain c1 where sent: "send_otp (Some s) now new_oid \<lparr>SendOtpRequest.phone = ph\<rparr> =
        (Some (s(''user'' := c1)), Inr otp_response)"
    and wf1: "wf_collection c1"
    and len: "length (find_docs c1 ?q) = max 1 (length (find_docs (s ''user'') ?q))"
    by blast
  let ?s1 = "s(''user'' := c1)"
  from len one have "length (find_docs c1 ?q) = 1" by simp
  then obtain u where u: "find_docs c1 ?q = [u]"
    by (cases "find_docs c1 ?q") auto
  then have found: "find_one (?s1 ''user'') ?q = Some u" by (simp add: find_one_def)
  have wf1': "wf_collection (?s1 ''user'')" using wf1 by simp
  from find_one_Some [OF found] have mem: "u \<in> set c1" by simp
  with wf_collection_member [OF wf1] obtain i where i: "map_of u ''_id'' = Some i" by blast
  let ?g = "set_fields i (otp_reset now2)"
  let ?u2 = "apply_set (otp_reset now2) u"
  have keys: "''_id'' \<notin> fst ` set (otp_reset now2)" "''phone'' \<notin> fst ` set (otp_reset now2)"
    by (simp_all add: otp_reset_def)
  have second: "send_otp (Some ?s1) now2 new_oid2 \<lparr>SendOtpRequest.phone = ph\<rparr> =
      (Some (?s1(''user'' := map ?g c1)), Inr otp_response)"
    using send_otp_update [where s="?s1" and ph=ph and new_oid=new_oid2 and now=now2, OF nonblank wf1' found i] by simp
  have same: "?g d = (if d = u then ?u2 else d)" if "d \<in> set c1" for d
  proof (cases "d = u")
    case True
    then show ?thesis using i by (simp add: set_fields_def)
  next
    case False
    have "map_of d ''_id'' \<noteq> Some i"
    proof
      assume "map_of d ''_id'' = Some i"
      then have "map_of d ''_id'' = map_of u ''_id''" using i by simp
      from same_id_same_doc [OF wf_collection_distinct [OF wf1] that mem this] False
      show False by simp
    qed
    then show ?thesis using False by (simp add: set_fields_def)
  qed
  have c2: "map ?g c1 = map (\<lambda>d. if d = u then ?u2 else d) c1"
    by (rule map_cong [OF refl]) (rule same)
  have "find_docs (map ?g c1) ?q = map ?g (find_docs c1 ?q)"
    by (rule find_docs_map) (rule matches_set_fields [OF keys(2)])
  then have f2: "find_docs (map ?g c1) ?q = [?u2]"
    using u i by (simp add: set_fields_def)
  have ids: "ids_of (map ?g c1) = ids_of c1" by (rule ids_of_set_fields [OF keys(1)])
  have fields: "map_of ?u2 ''is_verified'' = Some (VBool False)"
    "map_of ?u2 ''last_login'' = Some (VStr (now2 0))"
    by (simp_all add: apply_set_def otp_reset_def AList.update_conv')
  let ?s2 = "?s1(''user'' := map ?g c1)"
  have eq: "?s2 = ?s1(''user'' := map (\<lambda>d. if d = u then ?u2 else d) (?s1 ''user''))"
    unfolding c2 by simp
  have u1: "find_docs (?s1 ''user'') ?q = [u]" using u by simp
  have u2: "find_docs (?s2 ''user'') ?q = [?u2]" using f2 by simp
  have l2: "length (?s2 ''user'') = length (?s1 ''user'')" by simp
  have i2: "ids_of (?s2 ''user'') = ids_of (?s1 ''user'')" using ids by simp
  from sent second u1 u2 eq l2 i2 fields show ?thesis by blast
qed

text \<open>
  For a phone that is blank the claim as first stated fails: both calls are refused with
  status 400 and no user is updated; the collection stays empty.
\<close>

theorem send_otp_twice_blank_counterexample:
  "strip ''  '' = []
   \<and> send_otp (Some empty_store) sample_now sample_oid \<lparr>SendOtpRequest.phone = ''  ''\<rparr>
       = (Some empty_store, Inl (HTTPException 400 ''Phone is required''))
   \<and> send_otp (fst (send_otp (Some empty_store) sample_now sample_oid \<lparr>SendOtpRequest.phone = ''  ''\<rparr>))
         sample_now sample_oid \<lparr>SendOtpRequest.phone = ''  ''\<rparr>
       = (Some empty_store, Inl (HTTPException 400 ''Phone is required''))
   \<and> empty_store ''user'' = []"
  by (simp add: send_otp_def strip_sample empty_store_def)


theorem send_otp_twice_witness:
  "wf_collection (sample_store ''user'') \<and> strip '' 555-0100 '' \<noteq> []
   \<and> Some (VOid (sample_oid 0)) \<notin> set (ids_of (sample_store ''user''))
   \<and> length (find_docs (sample_store ''user'') [(''phone'', VStr (strip '' 555-0100 ''))]) \<le> 1
   \<and> (\<exists>s1 s2 u u2.
         send_otp (Some sample_store) sample_now sample_oid \<lparr>SendOtpRequest.phone = '' 555-0100 ''\<rparr>
           = (Some s1, Inr otp_response)
       \<and> send_otp (Some s1) sample_now sample_oid \<lparr>SendOtpRequest.phone = '' 555-0100 ''\<rparr>
           = (Some s2, Inr otp_response)
       \<and> find_docs (s1 ''user'') [(''phone'', VStr ''555-0100'')] = [u]
       \<and> find_docs (s2 ''user'') [(''phone'', VStr ''555-0100'')] = [u2]
       \<and> length (s2 ''user'') = length (s1 ''user'')
       \<and> map_of u2 ''is_verified'' = Some (VBool False))"
proof -
  have wf: "wf_collection (sample_store ''user'')" by (rule wf_sample_users)
  have nb: "strip '' 555-0100 '' \<noteq> []" by (simp add: strip_sample)
  have fr: "Some (VOid (sample_oid 0)) \<notin> set (ids_of (sample_store ''user''))"
    by (simp add: sample_store_simps ids_of_def sample_user_def sample_oid_simps)
  have one: "length (find_docs (sample_store ''user'') [(''phone'', VStr (strip '' 555-0100 ''))]) \<le> 1"
    by (simp add: strip_sample find_sample_user)
  from send_otp_twice [where s = sample_store and new_oid = sample_oid and now = sample_now
      and ?now2.0 = sample_now and ?new_oid2.0 = sample_oid, OF wf nb fr one]
  obtain s1 s2 u u2 where
    "send_otp (Some sample_store) sample_now sample_oid \<lparr>SendOtpRequest.phone = '' 555-0100 ''\<rparr>
           = (Some s1, Inr otp_response)"
    "send_otp (Some s1) sample_now sample_oid \<lparr>SendOtpRequest.phone = '' 555-0100 ''\<rparr>
           = (Some s2, Inr otp_response)"
    "find_docs (s1 ''user'') [(''phone'', VStr ''555-0100'')] = [u]"
    "find_docs (s2 ''user'') [(''phone'', VStr ''555-0100'')] = [u2]"
    "length (s2 ''user'') = length (s1 ''user'')"
    "map_of u2 ''is_verified'' = Some (VBool False)"
    unfolding strip_sample by blast
  with wf nb fr one show ?thesis by blast
qed

text \<open>
  Claim C2. With the store available, \<^verbatim>\<open>verify_otp\<close> with a code other than \<^verbatim>\<open>1234\<close>
  fails with status 400 "Invalid OTP", whatever the phone and whatever the store holds.
\<close>

theorem verify_otp_wrong_code:
  assumes "otp payload \<noteq> ''1234''"
  shows "verify_otp (Some s) now payload = (Some s, Inl (HTTPException 400 ''Invalid OTP''))
         \<and> status_code (HTTPException 400 ''Invalid OTP'') = 400"
  using assms by (simp add: verify_otp_def)

theorem verify_otp_wrong_code_witness:
  "otp \<lparr>VerifyOtpRequest.phone = ''555-0100'', otp = ''4321''\<rparr> \<noteq> ''1234''
   \<and> verify_otp (Some sample_store) sample_now \<lparr>VerifyOtpRequest.phone = ''555-0100'', otp = ''4321''\<rparr>
       = (Some sample_store, Inl (HTTPException 400 ''Invalid OTP''))"
proof -
  have h: "otp \<lparr>VerifyOtpRequest.phone = ''555-0100'', otp = ''4321''\<rparr> \<noteq> ''1234''" by simp
  from verify_otp_wrong_code [OF h, of sample_store sample_now] h show ?thesis by simp
qed

text \<open>
  Claim C10. A call of \<^verbatim>\<open>verify_otp\<close> that fails leaves the store as it was: a wrong
  code fails with 400, an unknown phone with 404, and the update to
  \<^verbatim>\<open>is_verified\<close> happens on no failing path.
\<close>

theorem verify_otp_failure_no_write:
  assumes "verify_otp (Some s) now payload = (db', Inl f)"
  shows "db' = Some s
         \<and> (otp payload \<noteq> ''1234'' \<longrightarrow> f = HTTPException 400 ''Invalid OTP'')
         \<and> (otp payload = ''1234'' \<and>
              find_one (s ''user'') [(''phone'', VStr (strip (VerifyOtpRequest.phone payload)))] = None
              \<longrightarrow> f = HTTPException 404 ''User not found'')"
proof -
  have never: "to_str_id d \<noteq> Inl e" for d e
    using to_str_id_total [of d] by auto
  show ?thesis
    using assms never
    by (auto simp: verify_otp_def Let_def split: if_splits option.splits sum.splits)
qed

theorem verify_otp_failure_no_write_witness:
  "verify_otp (Some sample_store) sample_now \<lparr>VerifyOtpRequest.phone = ''555-0100'', otp = ''4321''\<rparr>
     = (Some sample_store, Inl (HTTPException 400 ''Invalid OTP''))
   \<and> verify_otp (Some sample_store) sample_now \<lparr>VerifyOtpRequest.phone = ''unknown'', otp = ''1234''\<rparr>
     = (Some sample_store, Inl (HTTPException 404 ''User not found''))"
proof -
  let ?bad = "\<lparr>VerifyOtpRequest.phone = ''555-0100'', otp = ''4321''\<rparr>"
  let ?who = "\<lparr>VerifyOtpRequest.phone = ''unknown'', otp = ''1234''\<rparr>"
  obtain db1 f1 where r1: "verify_otp (Some sample_store) sample_now ?bad = (db1, Inl f1)"
    by (simp add: verify_otp_def)
  have none: "find_one (sample_store ''user'') [(''phone'', VStr (strip ''unknown''))] = None"
    by (simp add: find_one_def find_docs_def sample_store_simps sample_user_def strip_def
        isspace_def)
  then obtain db2 f2 where r2: "verify_otp (Some sample_store) sample_now ?who = (db2, Inl f2)"
    by (simp add: verify_otp_def)
  from verify_otp_failure_no_write [OF r1] verify_otp_failure_no_write [OF r2] none r1 r2
  show ?thesis by simp
qed

text \<open>
  Claim C5, amended. With no store (\<^verbatim>\<open>db is None\<close>) the two auth endpoints fail with
  status 500, the two detail endpoints fail with status 404 "Not found", and the three list
  endpoints return the empty list.
\<close>

theorem store_unavailable:
  "send_otp None now new_oid p = (None, Inl (HTTPException 500 ''Database not configured''))
   \<and> verify_otp None now v = (None, Inl (HTTPException 500 ''Database not configured''))
   \<and> get_restaurant None rid = Inl (HTTPException 404 ''Not found'')
   \<and> get_product None pid = Inl (HTTPException 404 ''Not found'')
   \<and> list_restaurants None = Inr []
   \<and> list_products None = Inr []
   \<and> get_restaurant_products None rid = Inr []"
  by (simp add: send_otp_def verify_otp_def get_restaurant_def get_product_def
      list_restaurants_def list_products_def get_restaurant_products_def)

text \<open>
  The detail endpoints do not answer 500 when there is no store: they answer 404.
\<close>

theorem store_unavailable_counterexample:
  "get_restaurant None ''65a1b2c3d4e5f60718293a40'' = Inl (HTTPException 404 ''Not found'')
   \<and> get_product None ''65a1b2c3d4e5f60718293a42'' = Inl (HTTPException 404 ''Not found'')
   \<and> status_code (HTTPException 404 ''Not found'') \<noteq> 500"
  by (simp add: get_restaurant_def get_product_def)

lemma find_one_absent:
  "Some i \<notin> set (ids_of c) \<Longrightarrow> find_one c [(''_id'', i)] = None"
  by (force simp: find_one_None find_docs_def filter_empty_conv ids_of_def image_iff)

lemma ObjectId_parse_Inr:
  "ObjectId_parse x = Inr i \<Longrightarrow> i = ObjectId (map lower_hex x)"
  by (auto simp: ObjectId_parse_def split: if_splits)

text \<open>
  Claim C6. With the store available, a detail request for an identifier that is the
  \<^verbatim>\<open>_id\<close> of no document, neither as a literal string nor as the \<^verbatim>\<open>ObjectId\<close> it
  spells, is answered with 404, for restaurants and for products, whether or not the
  string parses as an \<^verbatim>\<open>ObjectId\<close>.
\<close>

theorem detail_unknown_id:
  "(Some (VStr x) \<notin> set (ids_of (s ''restaurant'')) \<and>
    Some (VOid (ObjectId (map lower_hex x))) \<notin> set (ids_of (s ''restaurant''))
      \<longrightarrow> get_restaurant (Some s) x = Inl (HTTPException 404 ''Restaurant not found''))
   \<and> (Some (VStr x) \<notin> set (ids_of (s ''product'')) \<and>
    Some (VOid (ObjectId (map lower_hex x))) \<notin> set (ids_of (s ''product''))
      \<longrightarrow> get_product (Some s) x = Inl (HTTPException 404 ''Product not found''))"
  by (auto simp: get_restaurant_def get_product_def find_one_absent
      dest!: ObjectId_parse_Inr split: sum.splits)

theorem detail_unknown_id_witness:
  "Some (VStr ''65A1B2C3D4E5F60718293A49'') \<notin> set (ids_of (sample_store ''restaurant''))
   \<and> Some (VOid (ObjectId (map lower_hex ''65A1B2C3D4E5F60718293A49'')))
        \<notin> set (ids_of (sample_store ''restaurant''))
   \<and> get_restaurant (Some sample_store) ''65A1B2C3D4E5F60718293A49''
        = Inl (HTTPException 404 ''Restaurant not found'')
   \<and> Some (VStr ''65A1B2C3D4E5F60718293A49'') \<notin> set (ids_of (sample_store ''product''))
   \<and> Some (VOid (ObjectId (map lower_hex ''65A1B2C3D4E5F60718293A49'')))
        \<notin> set (ids_of (sample_store ''product''))
   \<and> get_product (Some sample_store) ''65A1B2C3D4E5F60718293A49''
        = Inl (HTTPException 404 ''Product not found'')"
proof -
  have r: "Some (VStr ''65A1B2C3D4E5F60718293A49'') \<notin> set (ids_of (sample_store ''restaurant''))"
    "Some (VOid (ObjectId (map lower_hex ''65A1B2C3D4E5F60718293A49'')))
        \<notin> set (ids_of (sample_store ''restaurant''))"
    by (simp_all add: sample_store_simps stored_def seed_restaurants_def ids_of_def
        sample_oid_simps lower_hex_def)
  have p: "Some (VStr ''65A1B2C3D4E5F60718293A49'') \<notin> set (ids_of (sample_store ''product''))"
    "Some (VOid (ObjectId (map lower_hex ''65A1B2C3D4E5F60718293A49'')))
        \<notin> set (ids_of (sample_store ''product''))"
    by (simp_all add: sample_store_simps stored_def seed_products_def ids_of_def
        sample_oid_simps lower_hex_def)
  from detail_unknown_id [of "''65A1B2C3D4E5F60718293A49''" sample_store] r p
  show ?thesis by blast
qed

text \<open>
  Claim C8. When the restaurant and the product collection are both non-empty,
  \<^verbatim>\<open>seed_data\<close> ends without an exception and leaves the store unchanged.
\<close>

theorem seed_data_nonempty:
  assumes "s ''restaurant'' \<noteq> []" "s ''product'' \<noteq> []"
  shows "seed_data (Some s) now new_oid = (Some s, None)"
  using assms
  by (simp add: seed_data_def seed_restaurant_step_def seed_product_step_def count_documents_def)

theorem seed_data_nonempty_witness:
  "sample_store ''restaurant'' \<noteq> [] \<and> sample_store ''product'' \<noteq> []
   \<and> seed_data (Some sample_store) sample_now sample_oid = (Some sample_store, None)"
proof -
  have r: "sample_store ''restaurant'' \<noteq> []"
    by (simp add: sample_store_simps stored_def seed_restaurants_def)
  have p: "sample_store ''product'' \<noteq> []"
    by (simp add: sample_store_simps stored_def seed_products_def)
  from seed_data_nonempty [OF r p, of sample_now sample_oid] r p show ?thesis by simp
qed

section \<open>Seeding a fresh store\<close>

lemma to_str_id_stored:
  assumes "is_dict ((''_id'', VOid (ObjectId h)) # d)" "list_all (\<lambda>kv. \<not> isinstance_ObjectId (snd kv)) d"
    "\<not> contains ''id'' d"
  shows "to_str_id ((''_id'', VOid (ObjectId h)) # d) = Inr (d @ [(''id'', VStr h)])"
proof -
  have nid: "''_id'' \<notin> fst ` set d" using assms(1) by (auto simp: is_dict_def)
  then have del: "AList.delete ''_id'' d = d" by simp
  have upd: "AList.update ''id'' (VStr h) d = d @ [(''id'', VStr h)]"
    using assms(3) by (induction d) (auto simp: contains_def split: if_splits)
  have ren: "rename_id ((''_id'', VOid (ObjectId h)) # d) = Inr (d @ [(''id'', VStr h)])"
    by (simp add: rename_id_def contains_def pop_def setitem_def del upd)
  have "fold stringify_item (d @ [(''id'', VStr h)]) (d @ [(''id'', VStr h)]) = d @ [(''id'', VStr h)]"
    by (rule fold_stringify_noop) (use assms(2) in simp)
  with ren show ?thesis by (simp add: to_str_id_def)
qed


lemma seed_restaurant_step_fresh:
  assumes "s ''restaurant'' = []" "new_oid 0 \<noteq> new_oid 1"
  shows "seed_restaurant_step s now new_oid =
           (s(''restaurant'' := stored [new_oid 0, new_oid 1] (seed_restaurants now)), None)"
  using assms
  by (simp add: seed_restaurant_step_def count_documents_def seed_restaurants_def
      insert_one_def with_id_def contains_def ids_of_def stored_def)

lemma rest_ids_of_seeded:
  "rest_ids_of (stored [a, b] (seed_restaurants now)) [] =
     Inr [(VStr ''Spice Garden'', VOid a), (VStr ''Pasta Piazza'', VOid b)]"
  by (simp add: seed_restaurants_def getitem_def stored_def)

lemma insert_three:
  assumes "\<not> contains ''_id'' d0" "\<not> contains ''_id'' d1" "\<not> contains ''_id'' d2"
    and "distinct [new_oid 2, new_oid 3, new_oid 4]"
  shows "insert_many [] new_oid 2 [d0, d1, d2] =
           (stored [new_oid 2, new_oid 3, new_oid 4] [d0, d1, d2], None)"
  using assms
  by (auto simp: insert_one_def with_id_def ids_of_def eval_nat_numeral stored_def)

lemma seed_product_step_fresh:
  assumes "s ''product'' = []"
    and "s ''restaurant'' = stored [a, b] (seed_restaurants now)"
    and "distinct [new_oid 2, new_oid 3, new_oid 4]"
  shows "seed_product_step s now new_oid =
           (s(''product'' :=
               stored [new_oid 2, new_oid 3, new_oid 4]
                 (seed_products now [(VStr ''Spice Garden'', VOid a),
                                     (VStr ''Pasta Piazza'', VOid b)])), None)"
proof -
  let ?r = "[(VStr ''Spice Garden'', VOid a), (VStr ''Pasta Piazza'', VOid b)]"
  obtain d0 d1 d2 where sp: "seed_products now ?r = [d0, d1, d2]"
    by (simp add: seed_products_def)
  have "list_all (\<lambda>d. \<not> contains ''_id'' d) (seed_products now ?r)"
    by (simp add: seed_products_def contains_def)
  then have noid: "\<not> contains ''_id'' d0" "\<not> contains ''_id'' d1" "\<not> contains ''_id'' d2"
    by (simp_all add: sp)
  have "insert_many [] new_oid 2 (seed_products now ?r) =
      (stored [new_oid 2, new_oid 3, new_oid 4] (seed_products now ?r), None)"
    unfolding sp using noid assms(3) by (rule insert_three)
  then show ?thesis
    using assms(1,2) rest_ids_of_seeded [of a b now]
    by (simp add: seed_product_step_def count_documents_def)
qed

lemma seed_data_fresh:
  assumes "s ''restaurant'' = []" "s ''product'' = []"
    and "new_oid 0 \<noteq> new_oid 1" "distinct [new_oid 2, new_oid 3, new_oid 4]"
  shows "seed_data (Some s) now new_oid =
           (Some (s(''restaurant'' := stored [new_oid 0, new_oid 1] (seed_restaurants now),
                    ''product'' := stored [new_oid 2, new_oid 3, new_oid 4]
                       (seed_products now [(VStr ''Spice Garden'', VOid (new_oid 0)),
                                           (VStr ''Pasta Piazza'', VOid (new_oid 1))]))), None)"
proof -
  let ?s1 = "s(''restaurant'' := stored [new_oid 0, new_oid 1] (seed_restaurants now))"
  have 1: "seed_restaurant_step s now new_oid = (?s1, None)"
    using assms(1,3) by (rule seed_restaurant_step_fresh)
  have 2: "seed_product_step ?s1 now new_oid =
      (?s1(''product'' := stored [new_oid 2, new_oid 3, new_oid 4]
                       (seed_products now [(VStr ''Spice Garden'', VOid (new_oid 0)),
                                           (VStr ''Pasta Piazza'', VOid (new_oid 1))])), None)"
    by (rule seed_product_step_fresh) (use assms in simp_all)
  show ?thesis by (simp only: seed_data_def 1 2 option.case prod.case)
qed

lemma to_str_id_stored_oid:
  assumes "is_dict ((''_id'', VOid i) # d)" "list_all (\<lambda>kv. \<not> isinstance_ObjectId (snd kv)) d"
    "\<not> contains ''id'' d"
  shows "to_str_id ((''_id'', VOid i) # d) = Inr (d @ [(''id'', VStr (py_str (VOid i)))])"
  using assms to_str_id_stored [of _ d] by (cases i) simp

lemma restaurants_listed:
  assumes "s ''restaurant'' = stored [a, b] (seed_restaurants now)"
  shows "\<exists>r1 r2. list_restaurants (Some s) = Inr [r1, r2]
           \<and> ro_name r1 = ''Spice Garden'' \<and> ro_name r2 = ''Pasta Piazza''
           \<and> ro_id r1 = py_str (VOid a) \<and> ro_id r2 = py_str (VOid b)"
proof -
  obtain d0 d1 where sr: "seed_restaurants now = [d0, d1]"
    and d0: "d0 = seed_restaurants now ! 0" and d1: "d1 = seed_restaurants now ! 1"
    by (simp add: seed_restaurants_def)
  have conv: "\<exists>r. bind_err (to_str_id ((''_id'', VOid i) # d)) RestaurantOut_of = Inr r
      \<and> ro_id r = py_str (VOid i) \<and> ro_name r = n"
    if "d = seed_restaurants now ! 0 \<and> n = ''Spice Garden''
        \<or> d = seed_restaurants now ! 1 \<and> n = ''Pasta Piazza''" for i d n
  proof -
    have "to_str_id ((''_id'', VOid i) # d) = Inr (d @ [(''id'', VStr (py_str (VOid i)))])"
      by (rule to_str_id_stored_oid)
        (use that in \<open>auto simp: seed_restaurants_def is_dict_def contains_def\<close>)
    then show ?thesis
      using that
      by (auto simp: bind_err_def RestaurantOut_of_def req_str_def opt_str_def opt_float_def
          seed_restaurants_def)
  qed
  from conv [of d0 "''Spice Garden''" a] d0
  obtain r1 where r1: "bind_err (to_str_id ((''_id'', VOid a) # d0)) RestaurantOut_of = Inr r1"
    "ro_id r1 = py_str (VOid a)" "ro_name r1 = ''Spice Garden''" by blast
  from conv [of d1 "''Pasta Piazza''" b] d1
  obtain r2 where r2: "bind_err (to_str_id ((''_id'', VOid b) # d1)) RestaurantOut_of = Inr r2"
    "ro_id r2 = py_str (VOid b)" "ro_name r2 = ''Pasta Piazza''" by blast
  have "list_restaurants (Some s) = Inr [r1, r2]"
    using assms r1(1) r2(1) by (simp add: list_restaurants_def sr stored_def unhandled_def)
  with r1 r2 show ?thesis by blast
qed


lemma products_listed:
  assumes "s ''product'' = stored [i0, i1, i2]
             (seed_products now [(VStr ''Spice Garden'', VOid a), (VStr ''Pasta Piazza'', VOid b)])"
  shows "\<exists>p1 p2 p3. list_products (Some s) = Inr [p1, p2, p3]
           \<and> po_restaurant_id p1 = Some (py_str (VOid a))
           \<and> po_restaurant_id p2 = Some (py_str (VOid a))
           \<and> po_restaurant_id p3 = Some (py_str (VOid b))"
proof -
  let ?r = "[(VStr ''Spice Garden'', VOid a), (VStr ''Pasta Piazza'', VOid b)]"
  obtain d0 d1 d2 where sp: "seed_products now ?r = [d0, d1, d2]"
    and d0: "d0 = seed_products now ?r ! 0" and d1: "d1 = seed_products now ?r ! 1"
    and d2: "d2 = seed_products now ?r ! 2"
    by (simp add: seed_products_def)
  have conv: "\<exists>p. bind_err (to_str_id ((''_id'', VOid i) # d)) ProductOut_of = Inr p
      \<and> po_restaurant_id p = Some (py_str (VOid w))"
    if "d = seed_products now ?r ! 0 \<and> w = a \<or> d = seed_products now ?r ! 1 \<and> w = a
        \<or> d = seed_products now ?r ! 2 \<and> w = b" for i d w
  proof -
    have "to_str_id ((''_id'', VOid i) # d) = Inr (d @ [(''id'', VStr (py_str (VOid i)))])"
      by (rule to_str_id_stored_oid)
        (use that in \<open>auto simp: seed_products_def is_dict_def contains_def\<close>)
    then show ?thesis
      using that
      by (auto simp: bind_err_def ProductOut_of_def req_str_def opt_str_def req_float_def
          opt_tags_def seed_products_def dict_get_def)
  qed
  from conv [of d0 a i0] d0
  obtain p1 where p1: "bind_err (to_str_id ((''_id'', VOid i0) # d0)) ProductOut_of = Inr p1"
    "po_restaurant_id p1 = Some (py_str (VOid a))" by blast
  from conv [of d1 a i1] d1
  obtain p2 where p2: "bind_err (to_str_id ((''_id'', VOid i1) # d1)) ProductOut_of = Inr p2"
    "po_restaurant_id p2 = Some (py_str (VOid a))" by blast
  from conv [of d2 b i2] d2
  obtain p3 where p3: "bind_err (to_str_id ((''_id'', VOid i2) # d2)) ProductOut_of = Inr p3"
    "po_restaurant_id p3 = Some (py_str (VOid b))" by blast
  have "list_products (Some s) = Inr [p1, p2, p3]"
    using assms p1(1) p2(1) p3(1) by (simp add: list_products_def sp stored_def unhandled_def)
  with p1 p2 p3 show ?thesis by blast
qed

lemma py_str_oid_inj: "py_str (VOid a) = py_str (VOid b) \<Longrightarrow> a = b"
  by (cases a; cases b) simp

text \<open>
  Claim C7. From a store with no restaurant and no product, after \<^verbatim>\<open>seed_data\<close> the
  restaurant list has exactly the two records "Spice Garden" and "Pasta Piazza", with
  different ids, and the product list has exactly three records, the first two carrying
  Spice Garden's id and the third Pasta Piazza's. The identifiers the driver generates
  within a collection are pairwise different.
\<close>

theorem seed_then_list:
  assumes "s ''restaurant'' = []" "s ''product'' = []"
    and "new_oid 0 \<noteq> new_oid 1" "distinct [new_oid 2, new_oid 3, new_oid 4]"
  shows "\<exists>s' r1 r2 p1 p2 p3.
           seed_data (Some s) now new_oid = (Some s', None)
         \<and> list_restaurants (Some s') = Inr [r1, r2]
         \<and> ro_name r1 = ''Spice Garden'' \<and> ro_name r2 = ''Pasta Piazza''
         \<and> ro_id r1 = py_str (VOid (new_oid 0)) \<and> ro_id r2 = py_str (VOid (new_oid 1))
         \<and> ro_id r1 \<noteq> ro_id r2
         \<and> list_products (Some s') = Inr [p1, p2, p3]
         \<and> po_restaurant_id p1 = Some (ro_id r1)
         \<and> po_restaurant_id p2 = Some (ro_id r1)
         \<and> po_restaurant_id p3 = Some (ro_id r2)"
proof -
  let ?rs = "stored [new_oid 0, new_oid 1] (seed_restaurants now)"
  let ?ps = "stored [new_oid 2, new_oid 3, new_oid 4]
               (seed_products now [(VStr ''Spice Garden'', VOid (new_oid 0)),
                                   (VStr ''Pasta Piazza'', VOid (new_oid 1))])"
  let ?s' = "s(''restaurant'' := ?rs, ''product'' := ?ps)"
  have seeded: "seed_data (Some s) now new_oid = (Some ?s', None)"
    using assms by (rule seed_data_fresh)
  have "?s' ''restaurant'' = ?rs" by simp
  from restaurants_listed [where s = ?s', OF this]
  obtain r1 r2 where rs: "list_restaurants (Some ?s') = Inr [r1, r2]"
    "ro_name r1 = ''Spice Garden''" "ro_name r2 = ''Pasta Piazza''"
    "ro_id r1 = py_str (VOid (new_oid 0))" "ro_id r2 = py_str (VOid (new_oid 1))" by blast
  have "?s' ''product'' = ?ps" by simp
  from products_listed [where s = ?s', OF this]
  obtain p1 p2 p3 where ps: "list_products (Some ?s') = Inr [p1, p2, p3]"
    "po_restaurant_id p1 = Some (py_str (VOid (new_oid 0)))"
    "po_restaurant_id p2 = Some (py_str (VOid (new_oid 0)))"
    "po_restaurant_id p3 = Some (py_str (VOid (new_oid 1)))" by blast
  have ne: "ro_id r1 \<noteq> ro_id r2"
    using assms(3) rs(4,5) py_str_oid_inj [of "new_oid 0" "new_oid 1"] by auto
  have links: "po_restaurant_id p1 = Some (ro_id r1)" "po_restaurant_id p2 = Some (ro_id r1)"
    "po_restaurant_id p3 = Some (ro_id r2)"
    using ps(2-4) rs(4,5) by simp_all
  from seeded rs ps(1) ne links show ?thesis by blast
qed

theorem seed_then_list_witness:
  "empty_store ''restaurant'' = [] \<and> empty_store ''product'' = []
   \<and> sample_oid 0 \<noteq> sample_oid 1 \<and> distinct [sample_oid 2, sample_oid 3, sample_oid 4]
   \<and> (\<exists>s' r1 r2 p1 p2 p3.
         seed_data (Some empty_store) sample_now sample_oid = (Some s', None)
       \<and> list_restaurants (Some s') = Inr [r1, r2]
       \<and> ro_name r1 = ''Spice Garden'' \<and> ro_name r2 = ''Pasta Piazza''
       \<and> ro_id r1 = ''65a1b2c3d4e5f60718293a40'' \<and> ro_id r2 = ''65a1b2c3d4e5f60718293a41''
       \<and> list_products (Some s') = Inr [p1, p2, p3]
       \<and> po_restaurant_id p1 = Some ''65a1b2c3d4e5f60718293a40''
       \<and> po_restaurant_id p2 = Some ''65a1b2c3d4e5f60718293a40''
       \<and> po_restaurant_id p3 = Some ''65a1b2c3d4e5f60718293a41'')"
proof -
  have e: "empty_store ''restaurant'' = []" "empty_store ''product'' = []"
    by (simp_all add: empty_store_def)
  have d: "sample_oid 0 \<noteq> sample_oid 1" "distinct [sample_oid 2, sample_oid 3, sample_oid 4]"
    by (simp_all add: sample_oid_simps)
  from seed_then_list [where s = empty_store and new_oid = sample_oid and now = sample_now,
      OF e d]
  obtain s' r1 r2 p1 p2 p3 where
    "seed_data (Some empty_store) sample_now sample_oid = (Some s', None)"
    "list_restaurants (Some s') = Inr [r1, r2]"
    "ro_name r1 = ''Spice Garden''" "ro_name r2 = ''Pasta Piazza''"
    "ro_id r1 = py_str (VOid (sample_oid 0))" "ro_id r2 = py_str (VOid (sample_oid 1))"
    "list_products (Some s') = Inr [p1, p2, p3]"
    "po_restaurant_id p1 = Some (ro_id r1)" "po_restaurant_id p2 = Some (ro_id r1)"
    "po_restaurant_id p3 = Some (ro_id r2)"
    by blast
  then have "seed_data (Some empty_store) sample_now sample_oid = (Some s', None)
       \<and> list_restaurants (Some s') = Inr [r1, r2]
       \<and> ro_name r1 = ''Spice Garden'' \<and> ro_name r2 = ''Pasta Piazza''
       \<and> ro_id r1 = ''65a1b2c3d4e5f60718293a40'' \<and> ro_id r2 = ''65a1b2c3d4e5f60718293a41''
       \<and> list_products (Some s') = Inr [p1, p2, p3]
       \<and> po_restaurant_id p1 = Some ''65a1b2c3d4e5f60718293a40''
       \<and> po_restaurant_id p2 = Some ''65a1b2c3d4e5f60718293a40''
       \<and> po_restaurant_id p3 = Some ''65a1b2c3d4e5f60718293a41''"
    by (simp add: sample_oid_simps)
  with e d show ?thesis by blast
qed

end
